theory Spec2Isabelle
  imports Main "HOL-Library.Word"
begin

unbundle bit_operations_syntax

section \<open>The Go runtime, as far as godex uses it\<close>

text \<open>
  godex is written in Go. Three features of the language decide what the code does on
  the inputs discussed below and are therefore modelled explicitly:
  \<^item> a run-time panic (index or slice bounds out of range, a call through a nil
    function value, a \<open>reflect\<close> misuse) ends the whole call chain: no function of
    godex recovers. Every function returns an \<open>outcome\<close>, \<open>Panicked\<close> or the
    returned values;
  \<^item> a \<open>[]byte\<close> is a window on a backing array: it has a length and a capacity.
    \<open>s[i]\<close> is checked against the length, \<open>s[lo:]\<close> needs \<open>lo \<le> len s\<close>, and
    \<open>s[lo:hi]\<close> needs \<open>lo \<le> hi \<le> cap s\<close>, so it can reach past the length;
  \<^item> the fixed-width integers wrap around, and a shift by at least the width of
    the operand gives 0. They are words of HOL-Library.
  An \<open>error\<close> is the message given to \<open>errors.New\<close>; \<open>nil\<close> is \<open>None\<close>.
  A Go \<open>string\<close> is a sequence of bytes, here a \<open>string\<close> of 8-bit characters.
\<close>

type_synonym byte = "8 word"
type_synonym uint16 = "16 word"
type_synonym uint32 = "32 word"
type_synonym uint64 = "64 word"
type_synonym error = string

datatype 'a outcome = Panicked | Returned 'a

datatype slice = Slice (backing: "byte list") (len: nat)

definition cap :: "slice \<Rightarrow> nat" where
  "cap s = length (backing s)"

text \<open>A byte literal \<open>[]byte{...}\<close>: length and capacity coincide.\<close>

definition bytes :: "byte list \<Rightarrow> slice" where
  "bytes bs = Slice bs (length bs)"

text \<open>\<open>s[i]\<close>\<close>

definition index :: "slice \<Rightarrow> nat \<Rightarrow> byte option" where
  "index s i = (if i < len s then Some (backing s ! i) else None)"

text \<open>\<open>s[lo:]\<close>\<close>

definition slice_from :: "slice \<Rightarrow> nat \<Rightarrow> slice option" where
  "slice_from s lo =
     (if lo \<le> len s then Some (Slice (drop lo (backing s)) (len s - lo)) else None)"

text \<open>\<open>s[lo:hi]\<close>\<close>

definition slice_range :: "slice \<Rightarrow> nat \<Rightarrow> nat \<Rightarrow> slice option" where
  "slice_range s lo hi =
     (if lo \<le> hi \<and> hi \<le> cap s then Some (Slice (drop lo (backing s)) (hi - lo)) else None)"

definition contents :: "slice \<Rightarrow> byte list" where
  "contents s = take (len s) (backing s)"

text \<open>The slice begins with the given bytes, all of them within its length.\<close>

definition starts_with :: "slice \<Rightarrow> byte list \<Rightarrow> bool" where
  "starts_with s bs \<longleftrightarrow> length bs \<le> len s \<and> take (length bs) (backing s) = bs"

text \<open>\<open>string(s)\<close>\<close>

definition string_of :: "slice \<Rightarrow> string" where
  "string_of s = map (\<lambda>w. char_of (unat w)) (contents s)"

text \<open>
  \<open>binary.LittleEndian.Uint16\<close> and \<open>Uint32\<close>: both first touch the last byte they
  need, which panics on a shorter slice.
\<close>

definition Uint16 :: "slice \<Rightarrow> uint16 option" where
  "Uint16 b =
     (case (index b 0, index b 1) of
        (Some b0, Some b1) \<Rightarrow> Some (ucast b0 OR push_bit 8 (ucast b1))
      | _ \<Rightarrow> None)"

definition Uint32 :: "slice \<Rightarrow> uint32 option" where
  "Uint32 b =
     (case (index b 0, index b 1, index b 2, index b 3) of
        (Some b0, Some b1, Some b2, Some b3) \<Rightarrow>
          Some (ucast b0 OR push_bit 8 (ucast b1) OR push_bit 16 (ucast b2)
                OR push_bit 24 (ucast b3))
      | _ \<Rightarrow> None)"

section \<open>pack.go\<close>

subsection \<open>The ULEB128 decoder\<close>

text \<open>
  \<open>uleb128\<close> of pack.go. The loop runs while \<open>i < 5\<close> and the byte at \<open>i\<close> has its
  top bit set (\<open>&&\<close> does not read \<open>data[i]\<close> once \<open>i\<close> is 5); then the byte at
  \<open>i\<close> is read once more, whatever ended the loop, and added at shift \<open>7 * i\<close>.
\<close>

function uleb128_loop :: "slice \<Rightarrow> uint32 \<Rightarrow> uint32 \<Rightarrow> (uint32 \<times> uint32) outcome" where
  "uleb128_loop data i val =
     (if i < 5 then
        (case index data (unat i) of
           None \<Rightarrow> Panicked
         | Some d \<Rightarrow>
             if d AND 0x80 = 0x80
             then uleb128_loop data (i + 1) (val + push_bit (unat (7 * i)) (ucast (d AND 0x7F)))
             else Returned (i, val))
      else Returned (i, val))"
  by pat_completeness auto
termination
  by (relation "measure (\<lambda>(d, i, v). 5 - unat i)") (auto simp: unat_word_ariths word_less_nat_alt)

declare uleb128_loop.simps [simp del]

definition uleb128 :: "slice \<Rightarrow> (uint32 \<times> uint32) outcome" where
  "uleb128 data =
     (case uleb128_loop data 0 0 of
        Panicked \<Rightarrow> Panicked
      | Returned (i, val) \<Rightarrow>
          (case index data (unat i) of
             None \<Rightarrow> Panicked
           | Some d \<Rightarrow> Returned (val + push_bit (unat (7 * i)) (ucast d), i + 1)))"

text \<open>
  \<open>str\<close> of pack.go: the value of the ULEB128 prefix is the number of bytes taken,
  and the count returned is the length of the prefix. \<open>i + length\<close> is a \<open>uint32\<close>
  sum.
\<close>

definition str :: "slice \<Rightarrow> (string \<times> uint32) outcome" where
  "str b =
     (case slice_from b 0 of
        None \<Rightarrow> Panicked
      | Some b0 \<Rightarrow>
          (case uleb128 b0 of
             Panicked \<Rightarrow> Panicked
           | Returned (lngth, offset) \<Rightarrow>
               (let i = 0 + offset in
                case slice_range b (unat i) (unat (i + lngth)) of
                  None \<Rightarrow> Panicked
                | Some s \<Rightarrow> Returned (string_of s, i))))"

text \<open>
  Modelled from the spec: the repository has no ULEB128 encoder. This is the encoding
  the glossary describes, seven payload bits per byte, least significant group first,
  the top bit set on every byte but the last, and no padding group.
\<close>

function uleb128_encode :: "uint32 \<Rightarrow> byte list" where
  "uleb128_encode v =
     (if v < 0x80 then [ucast v]
      else (ucast (v AND 0x7F) OR 0x80) # uleb128_encode (drop_bit 7 v))"
  by pat_completeness auto
termination
  by (relation "measure unat")
     (simp_all add: word_less_nat_alt unat_drop_bit_eq drop_bit_eq_div unat_div)

declare uleb128_encode.simps [simp del]

text \<open>
  The decoder resumed at byte \<open>i\<close> with the value accumulated so far; \<open>uleb128\<close> is
  this function at \<open>i = 0\<close>, value 0. It is used to state what one round of the
  loop does.
\<close>

definition uleb128_from :: "slice \<Rightarrow> uint32 \<Rightarrow> uint32 \<Rightarrow> (uint32 \<times> uint32) outcome" where
  "uleb128_from data i val =
     (case uleb128_loop data i val of
        Panicked \<Rightarrow> Panicked
      | Returned (i', val') \<Rightarrow>
          (case index data (unat i') of
             None \<Rightarrow> Panicked
           | Some d \<Rightarrow> Returned (val' + push_bit (unat (7 * i')) (ucast d), i' + 1)))"

text \<open>
  What the loop of \<open>uleb128\<close> adds up over a run of bytes it continues on: the low
  seven bits of the byte at position \<open>j\<close>, shifted left by \<open>7 * j\<close>, as a
  \<open>uint32\<close>.
\<close>

fun groups :: "byte list \<Rightarrow> nat \<Rightarrow> uint32" where
  "groups [] j = 0"
| "groups (d # ds) j = push_bit (7 * j) (ucast (d AND 0x7F)) + groups ds (Suc j)"

section \<open>The data model of dex.go\<close>

text \<open>
  The structs of dex.go, field for field. Every item also holds \<open>dex *DEX\<close>, a pointer
  back to the container it was read from; the records leave it out, and the functions
  that follow it (\<open>Name\<close>, \<open>String\<close>, \<open>Disassemble\<close>) take the container as an
  argument. A fixed-size byte array is the list of its bytes.
\<close>

record Header =
  Magic :: "byte list"
  Checksum :: uint32
  Signature :: "byte list"
  FileSize :: uint32
  HeaderSize :: uint32
  EndianTag :: uint32
  LinkSize :: uint32
  LinkOff :: uint32
  MapOff :: uint32
  StringIdsSize :: uint32
  StringIdsOffset :: uint32
  TypeIdsSize :: uint32
  TypeIdsOffset :: uint32
  ProtosSize :: uint32
  ProtosOffset :: uint32
  FieldsSize :: uint32
  FieldsOffset :: uint32
  MethodIdsSize :: uint32
  MethodIdsOffset :: uint32
  ClassDefsSize :: uint32
  ClassDefsOffset :: uint32
  DataSize :: uint32
  DataOffset :: uint32

record TypeId =
  DescriptorIdx :: uint32

record ProtoIdItem =
  ShortyIdx :: uint32
  ReturnTypeIdx :: uint32
  ParametersOffset :: uint32

record FieldIdItem =
  ClassIdx :: uint16
  TypeIdx :: uint16
  NameIdx :: uint32

record MethodIdItem =
  ClassIdx :: uint16
  ProtoIdx :: uint16
  NameIdx :: uint32

record EncodedValue =
  ValueType :: uint32
  Data :: "byte list"

record EncodedField =
  Field :: FieldIdItem
  FieldIdxDiff :: uint64
  AccessFlags :: uint32

record EncodedMethod =
  Method :: MethodIdItem
  MethodIdxDiff :: uint64
  AccessFlags :: uint32
  CodeOffset :: uint64

record ClassDataItem =
  StaticFieldSize :: uint64
  InstanceFieldSize :: uint64
  DirectMethodsSize :: uint64
  VirtualMethodsSize :: uint64
  StaticFields :: "EncodedField list"
  InstanceFields :: "EncodedField list"
  DirectMethods :: "EncodedMethod list"
  VirtualMethods :: "EncodedMethod list"

record ClassDefItem =
  ClassIdx :: uint32
  AccessFlags :: uint32
  SuperclassIdx :: uint32
  InterfacesOffset :: uint32
  SourceFileIdx :: uint32
  AnnotationsOffset :: uint32
  ClassData :: ClassDataItem
  StaticValues :: "EncodedValue list"

record DEX =
  b :: slice
  header :: Header
  Strings :: "string list"
  Types :: "TypeId list"
  Prototypes :: "ProtoIdItem list"
  Fields :: "FieldIdItem list"
  Methods :: "MethodIdItem list"
  Classes :: "ClassDefItem list"

text \<open>The zero values Go gives to a fresh variable of each type.\<close>

definition zero_Header :: Header where
  "zero_Header =
     \<lparr>Magic = replicate 8 0, Checksum = 0, Signature = replicate 20 0, FileSize = 0,
      HeaderSize = 0, EndianTag = 0, LinkSize = 0, LinkOff = 0, MapOff = 0,
      StringIdsSize = 0, StringIdsOffset = 0, TypeIdsSize = 0, TypeIdsOffset = 0,
      ProtosSize = 0, ProtosOffset = 0, FieldsSize = 0, FieldsOffset = 0,
      MethodIdsSize = 0, MethodIdsOffset = 0, ClassDefsSize = 0, ClassDefsOffset = 0,
      DataSize = 0, DataOffset = 0\<rparr>"

definition zero_TypeId :: TypeId where
  "zero_TypeId = \<lparr>DescriptorIdx = 0\<rparr>"

definition zero_ProtoIdItem :: ProtoIdItem where
  "zero_ProtoIdItem = \<lparr>ShortyIdx = 0, ReturnTypeIdx = 0, ParametersOffset = 0\<rparr>"

definition zero_FieldIdItem :: FieldIdItem where
  "zero_FieldIdItem = \<lparr>FieldIdItem.ClassIdx = 0, TypeIdx = 0, NameIdx = 0\<rparr>"

definition zero_MethodIdItem :: MethodIdItem where
  "zero_MethodIdItem = \<lparr>MethodIdItem.ClassIdx = 0, ProtoIdx = 0, NameIdx = 0\<rparr>"

definition zero_EncodedValue :: EncodedValue where
  "zero_EncodedValue = \<lparr>ValueType = 0, Data = []\<rparr>"

definition zero_EncodedField :: EncodedField where
  "zero_EncodedField =
     \<lparr>Field = zero_FieldIdItem, FieldIdxDiff = 0, EncodedField.AccessFlags = 0\<rparr>"

definition zero_EncodedMethod :: EncodedMethod where
  "zero_EncodedMethod =
     \<lparr>Method = zero_MethodIdItem, MethodIdxDiff = 0, EncodedMethod.AccessFlags = 0,
      CodeOffset = 0\<rparr>"

definition zero_ClassDataItem :: ClassDataItem where
  "zero_ClassDataItem =
     \<lparr>StaticFieldSize = 0, InstanceFieldSize = 0, DirectMethodsSize = 0,
      VirtualMethodsSize = 0, StaticFields = [], InstanceFields = [],
      DirectMethods = [], VirtualMethods = []\<rparr>"

definition zero_ClassDefItem :: ClassDefItem where
  "zero_ClassDefItem =
     \<lparr>ClassDefItem.ClassIdx = 0, ClassDefItem.AccessFlags = 0, SuperclassIdx = 0,
      InterfacesOffset = 0, SourceFileIdx = 0, AnnotationsOffset = 0,
      ClassData = zero_ClassDataItem, StaticValues = []\<rparr>"

section \<open>pack.go: the codecs and Unpack\<close>

subsection \<open>Reflection\<close>

text \<open>
  \<open>Unpack\<close> walks its target through \<open>reflect\<close>: the struct type gives the \<open>pack\<close>
  tag of each field, the struct value a settable reference to each field. A struct
  under reflection is the list of its tags and the list of its field values; an
  \<open>rvalue\<close> is a field value of one of the types that occur in godex.
\<close>

datatype rvalue =
    U16 uint16
  | U32 uint32
  | U64 uint64
  | ByteArray "byte list"
  | DexPtr
  | FieldIdItemV FieldIdItem
  | MethodIdItemV MethodIdItem
  | ClassDataItemV ClassDataItem
  | EncodedFieldsV "EncodedField list"
  | EncodedMethodsV "EncodedMethod list"
  | EncodedValuesV "EncodedValue list"
  | ByteSliceV "byte list"

text \<open>
  \<open>reflect.Value.SetUint\<close> stores the value truncated to the width of the field, and
  panics on a field that is not an unsigned integer.
\<close>

fun SetUint :: "rvalue \<Rightarrow> uint64 \<Rightarrow> rvalue option" where
  "SetUint (U16 _) x = Some (U16 (ucast x))"
| "SetUint (U32 _) x = Some (U32 (ucast x))"
| "SetUint (U64 _) x = Some (U64 x)"
| "SetUint _ x = None"

subsection \<open>The built-in codecs\<close>

text \<open>
  A codec gets the remaining bytes and a reference to the field; it returns the number
  of bytes it took and an error. Here it also returns the new value of the field.
  \<open>unpackUleb128\<close> repeats the loop of \<open>uleb128\<close> and stores the value.
\<close>

definition unpackUleb128 :: "slice \<Rightarrow> rvalue \<Rightarrow> (rvalue \<times> nat \<times> error option) outcome" where
  "unpackUleb128 data val =
     (case uleb128 data of
        Panicked \<Rightarrow> Panicked
      | Returned (v, i) \<Rightarrow>
          (case SetUint val (ucast v) of
             None \<Rightarrow> Panicked
           | Some val' \<Rightarrow> Returned (val', unat i, None)))"

definition unpackUint :: "slice \<Rightarrow> rvalue \<Rightarrow> (rvalue \<times> nat \<times> error option) outcome" where
  "unpackUint data val =
     (case slice_range data 0 4 of
        None \<Rightarrow> Panicked
      | Some d \<Rightarrow>
          (case Uint32 d of
             None \<Rightarrow> Panicked
           | Some v \<Rightarrow>
               (case SetUint val (ucast v) of
                  None \<Rightarrow> Panicked
                | Some val' \<Rightarrow> Returned (val', 4, None))))"

definition unpackUshort :: "slice \<Rightarrow> rvalue \<Rightarrow> (rvalue \<times> nat \<times> error option) outcome" where
  "unpackUshort data val =
     (case slice_range data 0 2 of
        None \<Rightarrow> Panicked
      | Some d \<Rightarrow>
          (case Uint16 d of
             None \<Rightarrow> Panicked
           | Some v \<Rightarrow>
               (case SetUint val (ucast v) of
                  None \<Rightarrow> Panicked
                | Some val' \<Rightarrow> Returned (val', 2, None))))"

definition unpackByteArray :: "slice \<Rightarrow> rvalue \<Rightarrow> (rvalue \<times> nat \<times> error option) outcome" where
  "unpackByteArray data val =
     (case val of
        ByteArray a \<Rightarrow>
          (case slice_range data 0 (length a) of
             None \<Rightarrow> Panicked
           | Some d \<Rightarrow> Returned (ByteArray (contents d), length a, None))
      | _ \<Rightarrow> Returned (val, 0, Some ''Invalid field''))"

subsection \<open>The registry\<close>

text \<open>
  \<open>packs\<close> is a global map from tag to codec. A registered codec is called with a
  reference to field \<open>i\<close> of the struct being unpacked; the closures that \<open>Parse\<close>
  registers ignore the reference and work on the struct they captured, which is the
  struct being unpacked. So a registered codec is a function of the bytes, the index of
  the field and the current struct, and returns the struct.
\<close>

type_synonym PackFunc = "slice \<Rightarrow> nat \<Rightarrow> rvalue list \<Rightarrow> (rvalue list \<times> nat \<times> error option) outcome"

type_synonym registry = "string \<Rightarrow> PackFunc option"

text \<open>A codec that only works through the reference it is given.\<close>

definition on_field ::
  "(slice \<Rightarrow> rvalue \<Rightarrow> (rvalue \<times> nat \<times> error option) outcome) \<Rightarrow> PackFunc" where
  "on_field f data i st =
     (case f data (st ! i) of
        Panicked \<Rightarrow> Panicked
      | Returned (v, n, e) \<Rightarrow> Returned (st[i := v], n, e))"

text \<open>
  The codecs that change no field of the struct but the one they are called on. The
  built-in codecs are of this kind.
\<close>

definition writes_only_val :: "PackFunc \<Rightarrow> bool" where
  "writes_only_val p \<longleftrightarrow>
     (\<forall>data i st st' n e. p data i st = Returned (st', n, e) \<longrightarrow> (\<exists>v. st' = st[i := v]))"

definition RegisterPack :: "string \<Rightarrow> PackFunc \<Rightarrow> registry \<Rightarrow> registry" where
  "RegisterPack name fn packs = packs(name \<mapsto> fn)"

text \<open>The registry once the package is initialised.\<close>

definition packs0 :: registry where
  "packs0 =
     RegisterPack ''byte'' (on_field unpackByteArray)
       (RegisterPack ''ushort'' (on_field unpackUshort)
         (RegisterPack ''uint'' (on_field unpackUint)
           (RegisterPack ''uleb128'' (on_field unpackUleb128) Map.empty)))"

text \<open>
  A codec called on a variable of its own, as in
  \<open>packs["uint"](data, reflect.ValueOf(&offset).Elem())\<close>. A tag that was never
  registered yields the nil function, and calling it panics.
\<close>

definition call_on_var ::
  "registry \<Rightarrow> string \<Rightarrow> slice \<Rightarrow> rvalue \<Rightarrow> (rvalue \<times> nat \<times> error option) outcome" where
  "call_on_var packs name data v =
     (case packs name of
        None \<Rightarrow> Panicked
      | Some p \<Rightarrow>
          (case p data 0 [v] of
             Panicked \<Rightarrow> Panicked
           | Returned (st, n, e) \<Rightarrow> Returned (st ! 0, n, e)))"

subsection \<open>Unpack\<close>

text \<open>
  \<open>Unpack(b, o)\<close>: for each field in order, skip it when its tag is \<open>-\<close>; when the tag
  is registered call the codec on \<open>b[offset:]\<close>, drop the error it returns and add
  the length to \<open>offset\<close>; otherwise return \<open>offset\<close> and a new error. The target is
  updated in place, so the function returns it with the offset and the error.
\<close>

fun Unpack_fields ::
  "registry \<Rightarrow> slice \<Rightarrow> string list \<Rightarrow> rvalue list \<Rightarrow> nat \<Rightarrow> nat
     \<Rightarrow> (rvalue list \<times> nat \<times> error option) outcome" where
  "Unpack_fields packs buf [] st i offset = Returned (st, offset, None)"
| "Unpack_fields packs buf (tag # tags) st i offset =
     (if tag = ''-'' then Unpack_fields packs buf tags st (Suc i) offset
      else
        (case packs tag of
           Some p \<Rightarrow>
             (case slice_from buf offset of
                None \<Rightarrow> Panicked
              | Some d \<Rightarrow>
                  (case p d i st of
                     Panicked \<Rightarrow> Panicked
                   | Returned (st', lngth, _) \<Rightarrow>
                       Unpack_fields packs buf tags st' (Suc i) (offset + lngth)))
         | None \<Rightarrow> Returned (st, offset, Some ''Not implemented type '')))"

definition Unpack ::
  "registry \<Rightarrow> slice \<Rightarrow> string list \<Rightarrow> rvalue list
     \<Rightarrow> (rvalue list \<times> nat \<times> error option) outcome" where
  "Unpack packs buf tags st = Unpack_fields packs buf tags st 0 0"

text \<open>
  A codec that, called for field \<open>i\<close>, changes no field of the struct but field
  \<open>i\<close>; and a registry in which this holds of the codec of every tag of a struct, at
  the position of the tag. The closures of \<open>Parse\<close> are of this kind at the one
  position they are registered for.
\<close>

definition writes_field :: "PackFunc \<Rightarrow> nat \<Rightarrow> bool" where
  "writes_field p i \<longleftrightarrow>
     (\<forall>data st st' n e. p data i st = Returned (st', n, e) \<longrightarrow> (\<exists>v. st' = st[i := v]))"

fun keep_to_field_from :: "registry \<Rightarrow> string list \<Rightarrow> nat \<Rightarrow> bool" where
  "keep_to_field_from packs [] k = True"
| "keep_to_field_from packs (tag # tags) k =
     ((tag = ''-'' \<or> (case packs tag of None \<Rightarrow> True | Some p \<Rightarrow> writes_field p k))
      \<and> keep_to_field_from packs tags (Suc k))"

definition codecs_keep_to_field :: "registry \<Rightarrow> string list \<Rightarrow> bool" where
  "codecs_keep_to_field packs tags = keep_to_field_from packs tags 0"

subsection \<open>The structs of dex.go under reflection\<close>

text \<open>
  For each struct that is a target of \<open>Unpack\<close>: the \<open>pack\<close> tags of its fields in
  declaration order (the leading \<open>-\<close> is the \<open>dex\<close> pointer), the values of the
  fields, and the struct read back from the values.
\<close>

definition the_U16 :: "rvalue \<Rightarrow> uint16" where
  "the_U16 v = (case v of U16 w \<Rightarrow> w | _ \<Rightarrow> 0)"

definition the_U32 :: "rvalue \<Rightarrow> uint32" where
  "the_U32 v = (case v of U32 w \<Rightarrow> w | _ \<Rightarrow> 0)"

definition the_U64 :: "rvalue \<Rightarrow> uint64" where
  "the_U64 v = (case v of U64 w \<Rightarrow> w | _ \<Rightarrow> 0)"

definition the_ByteArray :: "rvalue \<Rightarrow> byte list" where
  "the_ByteArray v = (case v of ByteArray a \<Rightarrow> a | _ \<Rightarrow> [])"

definition the_FieldIdItem :: "rvalue \<Rightarrow> FieldIdItem" where
  "the_FieldIdItem v = (case v of FieldIdItemV x \<Rightarrow> x | _ \<Rightarrow> zero_FieldIdItem)"

definition the_MethodIdItem :: "rvalue \<Rightarrow> MethodIdItem" where
  "the_MethodIdItem v = (case v of MethodIdItemV x \<Rightarrow> x | _ \<Rightarrow> zero_MethodIdItem)"

definition the_ClassDataItem :: "rvalue \<Rightarrow> ClassDataItem" where
  "the_ClassDataItem v = (case v of ClassDataItemV x \<Rightarrow> x | _ \<Rightarrow> zero_ClassDataItem)"

definition the_EncodedFields :: "rvalue \<Rightarrow> EncodedField list" where
  "the_EncodedFields v = (case v of EncodedFieldsV x \<Rightarrow> x | _ \<Rightarrow> [])"

definition the_EncodedMethods :: "rvalue \<Rightarrow> EncodedMethod list" where
  "the_EncodedMethods v = (case v of EncodedMethodsV x \<Rightarrow> x | _ \<Rightarrow> [])"

definition the_EncodedValues :: "rvalue \<Rightarrow> EncodedValue list" where
  "the_EncodedValues v = (case v of EncodedValuesV x \<Rightarrow> x | _ \<Rightarrow> [])"

definition Header_tags :: "string list" where
  "Header_tags =
     [''byte'', ''uint'', ''byte'', ''uint'', ''uint'', ''uint'', ''uint'', ''uint'',
      ''uint'', ''uint'', ''uint'', ''uint'', ''uint'', ''uint'', ''uint'', ''uint'',
      ''uint'', ''uint'', ''uint'', ''uint'', ''uint'', ''uint'', ''uint'']"

definition Header_fields :: "Header \<Rightarrow> rvalue list" where
  "Header_fields h =
     [ByteArray (Magic h), U32 (Checksum h), ByteArray (Signature h), U32 (FileSize h),
      U32 (HeaderSize h), U32 (EndianTag h), U32 (LinkSize h), U32 (LinkOff h),
      U32 (MapOff h), U32 (StringIdsSize h), U32 (StringIdsOffset h),
      U32 (TypeIdsSize h), U32 (TypeIdsOffset h), U32 (ProtosSize h),
      U32 (ProtosOffset h), U32 (FieldsSize h), U32 (FieldsOffset h),
      U32 (MethodIdsSize h), U32 (MethodIdsOffset h), U32 (ClassDefsSize h),
      U32 (ClassDefsOffset h), U32 (DataSize h), U32 (DataOffset h)]"

definition Header_of :: "rvalue list \<Rightarrow> Header" where
  "Header_of st =
     \<lparr>Magic = the_ByteArray (st ! 0), Checksum = the_U32 (st ! 1),
      Signature = the_ByteArray (st ! 2), FileSize = the_U32 (st ! 3),
      HeaderSize = the_U32 (st ! 4), EndianTag = the_U32 (st ! 5),
      LinkSize = the_U32 (st ! 6), LinkOff = the_U32 (st ! 7), MapOff = the_U32 (st ! 8),
      StringIdsSize = the_U32 (st ! 9), StringIdsOffset = the_U32 (st ! 10),
      TypeIdsSize = the_U32 (st ! 11), TypeIdsOffset = the_U32 (st ! 12),
      ProtosSize = the_U32 (st ! 13), ProtosOffset = the_U32 (st ! 14),
      FieldsSize = the_U32 (st ! 15), FieldsOffset = the_U32 (st ! 16),
      MethodIdsSize = the_U32 (st ! 17), MethodIdsOffset = the_U32 (st ! 18),
      ClassDefsSize = the_U32 (st ! 19), ClassDefsOffset = the_U32 (st ! 20),
      DataSize = the_U32 (st ! 21), DataOffset = the_U32 (st ! 22)\<rparr>"

definition TypeId_tags :: "string list" where
  "TypeId_tags = [''-'', ''uint'']"

definition TypeId_fields :: "TypeId \<Rightarrow> rvalue list" where
  "TypeId_fields t = [DexPtr, U32 (DescriptorIdx t)]"

definition TypeId_of :: "rvalue list \<Rightarrow> TypeId" where
  "TypeId_of st = \<lparr>DescriptorIdx = the_U32 (st ! 1)\<rparr>"

definition ProtoIdItem_tags :: "string list" where
  "ProtoIdItem_tags = [''-'', ''uint'', ''uint'', ''uint'']"

definition ProtoIdItem_fields :: "ProtoIdItem \<Rightarrow> rvalue list" where
  "ProtoIdItem_fields p =
     [DexPtr, U32 (ShortyIdx p), U32 (ReturnTypeIdx p), U32 (ParametersOffset p)]"

definition ProtoIdItem_of :: "rvalue list \<Rightarrow> ProtoIdItem" where
  "ProtoIdItem_of st =
     \<lparr>ShortyIdx = the_U32 (st ! 1), ReturnTypeIdx = the_U32 (st ! 2),
      ParametersOffset = the_U32 (st ! 3)\<rparr>"

definition FieldIdItem_tags :: "string list" where
  "FieldIdItem_tags = [''-'', ''ushort'', ''ushort'', ''uint'']"

definition FieldIdItem_fields :: "FieldIdItem \<Rightarrow> rvalue list" where
  "FieldIdItem_fields f =
     [DexPtr, U16 (FieldIdItem.ClassIdx f), U16 (TypeIdx f), U32 (FieldIdItem.NameIdx f)]"

definition FieldIdItem_of :: "rvalue list \<Rightarrow> FieldIdItem" where
  "FieldIdItem_of st =
     \<lparr>FieldIdItem.ClassIdx = the_U16 (st ! 1), TypeIdx = the_U16 (st ! 2),
      NameIdx = the_U32 (st ! 3)\<rparr>"

definition MethodIdItem_tags :: "string list" where
  "MethodIdItem_tags = [''-'', ''ushort'', ''ushort'', ''uint'']"

definition MethodIdItem_fields :: "MethodIdItem \<Rightarrow> rvalue list" where
  "MethodIdItem_fields m =
     [DexPtr, U16 (MethodIdItem.ClassIdx m), U16 (ProtoIdx m), U32 (MethodIdItem.NameIdx m)]"

definition MethodIdItem_of :: "rvalue list \<Rightarrow> MethodIdItem" where
  "MethodIdItem_of st =
     \<lparr>MethodIdItem.ClassIdx = the_U16 (st ! 1), ProtoIdx = the_U16 (st ! 2),
      NameIdx = the_U32 (st ! 3)\<rparr>"

definition EncodedValue_tags :: "string list" where
  "EncodedValue_tags = [''-'', ''-'', ''-'']"

definition EncodedValue_fields :: "EncodedValue \<Rightarrow> rvalue list" where
  "EncodedValue_fields v = [DexPtr, U32 (ValueType v), ByteSliceV (Data v)]"

definition EncodedField_tags :: "string list" where
  "EncodedField_tags = [''-'', ''-'', ''uleb128'', ''uleb128'']"

definition EncodedField_fields :: "EncodedField \<Rightarrow> rvalue list" where
  "EncodedField_fields f =
     [DexPtr, FieldIdItemV (Field f), U64 (FieldIdxDiff f), U32 (EncodedField.AccessFlags f)]"

definition EncodedField_of :: "rvalue list \<Rightarrow> EncodedField" where
  "EncodedField_of st =
     \<lparr>Field = the_FieldIdItem (st ! 1), FieldIdxDiff = the_U64 (st ! 2),
      EncodedField.AccessFlags = the_U32 (st ! 3)\<rparr>"

definition EncodedMethod_tags :: "string list" where
  "EncodedMethod_tags = [''-'', ''-'', ''uleb128'', ''uleb128'', ''uleb128'']"

definition EncodedMethod_fields :: "EncodedMethod \<Rightarrow> rvalue list" where
  "EncodedMethod_fields m =
     [DexPtr, MethodIdItemV (Method m), U64 (MethodIdxDiff m),
      U32 (EncodedMethod.AccessFlags m), U64 (CodeOffset m)]"

definition EncodedMethod_of :: "rvalue list \<Rightarrow> EncodedMethod" where
  "EncodedMethod_of st =
     \<lparr>Method = the_MethodIdItem (st ! 1), MethodIdxDiff = the_U64 (st ! 2),
      EncodedMethod.AccessFlags = the_U32 (st ! 3), CodeOffset = the_U64 (st ! 4)\<rparr>"

definition ClassDataItem_tags :: "string list" where
  "ClassDataItem_tags =
     [''uleb128'', ''uleb128'', ''uleb128'', ''uleb128'',
      ''staticfields'', ''instancefields'', ''directmethods'', ''virtualmethods'']"

definition ClassDataItem_fields :: "ClassDataItem \<Rightarrow> rvalue list" where
  "ClassDataItem_fields c =
     [U64 (StaticFieldSize c), U64 (InstanceFieldSize c), U64 (DirectMethodsSize c),
      U64 (VirtualMethodsSize c), EncodedFieldsV (StaticFields c),
      EncodedFieldsV (InstanceFields c), EncodedMethodsV (DirectMethods c),
      EncodedMethodsV (VirtualMethods c)]"

definition ClassDataItem_of :: "rvalue list \<Rightarrow> ClassDataItem" where
  "ClassDataItem_of st =
     \<lparr>StaticFieldSize = the_U64 (st ! 0), InstanceFieldSize = the_U64 (st ! 1),
      DirectMethodsSize = the_U64 (st ! 2), VirtualMethodsSize = the_U64 (st ! 3),
      StaticFields = the_EncodedFields (st ! 4), InstanceFields = the_EncodedFields (st ! 5),
      DirectMethods = the_EncodedMethods (st ! 6),
      VirtualMethods = the_EncodedMethods (st ! 7)\<rparr>"

definition ClassDefItem_tags :: "string list" where
  "ClassDefItem_tags =
     [''-'', ''uint'', ''uint'', ''uint'', ''uint'', ''uint'', ''uint'',
      ''classdata'', ''staticvalues'']"

definition ClassDefItem_fields :: "ClassDefItem \<Rightarrow> rvalue list" where
  "ClassDefItem_fields c =
     [DexPtr, U32 (ClassDefItem.ClassIdx c), U32 (ClassDefItem.AccessFlags c),
      U32 (SuperclassIdx c), U32 (InterfacesOffset c), U32 (SourceFileIdx c),
      U32 (AnnotationsOffset c), ClassDataItemV (ClassData c),
      EncodedValuesV (StaticValues c)]"

definition ClassDefItem_of :: "rvalue list \<Rightarrow> ClassDefItem" where
  "ClassDefItem_of st =
     \<lparr>ClassDefItem.ClassIdx = the_U32 (st ! 1), ClassDefItem.AccessFlags = the_U32 (st ! 2),
      SuperclassIdx = the_U32 (st ! 3), InterfacesOffset = the_U32 (st ! 4),
      SourceFileIdx = the_U32 (st ! 5), AnnotationsOffset = the_U32 (st ! 6),
      ClassData = the_ClassDataItem (st ! 7), StaticValues = the_EncodedValues (st ! 8)\<rparr>"

section \<open>dex.go: Parse\<close>

text \<open>
  The readers work on the \<open>DEX\<close> they are called on and return it with their error.
  \<open>make\<close> gives a table of zero values, which the loop then fills by index; memory
  for it is assumed to be there. The registry is an argument: the readers only look
  codecs up.
\<close>

definition readHeader :: "registry \<Rightarrow> DEX \<Rightarrow> (DEX \<times> error option) outcome" where
  "readHeader packs d =
     (case Unpack packs (b d) Header_tags (Header_fields (header d)) of
        Panicked \<Rightarrow> Panicked
      | Returned (st, _, err) \<Rightarrow> Returned (d\<lparr>header := Header_of st\<rparr>, err))"

function readStrings_loop :: "DEX \<Rightarrow> slice \<Rightarrow> nat \<Rightarrow> (DEX \<times> error option) outcome" where
  "readStrings_loop d data i =
     (if i < unat (StringIdsSize (header d)) then
        (let offset = i * 4 in
         case slice_range data offset (offset + 4) of
           None \<Rightarrow> Panicked
         | Some w \<Rightarrow>
             (case Uint32 w of
                None \<Rightarrow> Panicked
              | Some string_data_offset \<Rightarrow>
                  (case slice_from (b d) (unat string_data_offset) of
                     None \<Rightarrow> Panicked
                   | Some sd \<Rightarrow>
                       (case str sd of
                          Panicked \<Rightarrow> Panicked
                        | Returned (s, _) \<Rightarrow>
                            readStrings_loop (d\<lparr>Strings := (Strings d)[i := s]\<rparr>) data (Suc i)))))
      else Returned (d, None))"
  by pat_completeness auto
termination
  by (relation "measure (\<lambda>(d, data, i). unat (StringIdsSize (header d)) - i)") auto

declare readStrings_loop.simps [simp del]

definition readStrings :: "DEX \<Rightarrow> (DEX \<times> error option) outcome" where
  "readStrings d =
     (let d1 = d\<lparr>Strings := replicate (unat (StringIdsSize (header d))) ''''\<rparr> in
      case slice_from (b d1) (unat (StringIdsOffset (header d1))) of
        None \<Rightarrow> Panicked
      | Some data \<Rightarrow> readStrings_loop d1 data 0)"

function readTypes_loop :: "registry \<Rightarrow> DEX \<Rightarrow> nat \<Rightarrow> (DEX \<times> error option) outcome" where
  "readTypes_loop packs d i =
     (if i < unat (TypeIdsSize (header d)) then
        (case slice_from (b d) (unat (TypeIdsOffset (header d) + of_nat (4 * i))) of
           None \<Rightarrow> Panicked
         | Some data \<Rightarrow>
             (case Unpack packs data TypeId_tags (TypeId_fields zero_TypeId) of
                Panicked \<Rightarrow> Panicked
              | Returned (st, _, err) \<Rightarrow>
                  if err \<noteq> None then Returned (d, err)
                  else readTypes_loop packs (d\<lparr>Types := (Types d)[i := TypeId_of st]\<rparr>) (Suc i)))
      else Returned (d, None))"
  by pat_completeness auto
termination
  by (relation "measure (\<lambda>(packs, d, i). unat (TypeIdsSize (header d)) - i)") auto

declare readTypes_loop.simps [simp del]

definition readTypes :: "registry \<Rightarrow> DEX \<Rightarrow> (DEX \<times> error option) outcome" where
  "readTypes packs d =
     readTypes_loop packs
       (d\<lparr>Types := replicate (unat (TypeIdsSize (header d))) zero_TypeId\<rparr>) 0"

function readPrototypes_loop :: "registry \<Rightarrow> DEX \<Rightarrow> nat \<Rightarrow> (DEX \<times> error option) outcome" where
  "readPrototypes_loop packs d i =
     (if i < unat (ProtosSize (header d)) then
        (let s = ProtosOffset (header d) + of_nat (0xc * i) in
         case slice_from (b d) (unat s) of
           None \<Rightarrow> Panicked
         | Some data \<Rightarrow>
             (case Unpack packs data ProtoIdItem_tags (ProtoIdItem_fields zero_ProtoIdItem) of
                Panicked \<Rightarrow> Panicked
              | Returned (st, _, err) \<Rightarrow>
                  if err \<noteq> None then Returned (d, err)
                  else readPrototypes_loop packs
                         (d\<lparr>Prototypes := (Prototypes d)[i := ProtoIdItem_of st]\<rparr>) (Suc i)))
      else Returned (d, None))"
  by pat_completeness auto
termination
  by (relation "measure (\<lambda>(packs, d, i). unat (ProtosSize (header d)) - i)") auto

declare readPrototypes_loop.simps [simp del]

definition readPrototypes :: "registry \<Rightarrow> DEX \<Rightarrow> (DEX \<times> error option) outcome" where
  "readPrototypes packs d =
     readPrototypes_loop packs
       (d\<lparr>Prototypes := replicate (unat (ProtosSize (header d))) zero_ProtoIdItem\<rparr>) 0"

function readFields_loop :: "registry \<Rightarrow> DEX \<Rightarrow> nat \<Rightarrow> (DEX \<times> error option) outcome" where
  "readFields_loop packs d i =
     (if i < unat (FieldsSize (header d)) then
        (let s = FieldsOffset (header d) + of_nat (0x8 * i) in
         case slice_from (b d) (unat s) of
           None \<Rightarrow> Panicked
         | Some data \<Rightarrow>
             (case Unpack packs data FieldIdItem_tags (FieldIdItem_fields zero_FieldIdItem) of
                Panicked \<Rightarrow> Panicked
              | Returned (st, _, err) \<Rightarrow>
                  if err \<noteq> None then Returned (d, err)
                  else readFields_loop packs
                         (d\<lparr>Fields := (Fields d)[i := FieldIdItem_of st]\<rparr>) (Suc i)))
      else Returned (d, None))"
  by pat_completeness auto
termination
  by (relation "measure (\<lambda>(packs, d, i). unat (FieldsSize (header d)) - i)") auto

declare readFields_loop.simps [simp del]

definition readFields :: "registry \<Rightarrow> DEX \<Rightarrow> (DEX \<times> error option) outcome" where
  "readFields packs d =
     readFields_loop packs
       (d\<lparr>Fields := replicate (unat (FieldsSize (header d))) zero_FieldIdItem\<rparr>) 0"

function readMethods_loop :: "registry \<Rightarrow> DEX \<Rightarrow> nat \<Rightarrow> (DEX \<times> error option) outcome" where
  "readMethods_loop packs d i =
     (if i < unat (MethodIdsSize (header d)) then
        (let s = MethodIdsOffset (header d) + of_nat (0x8 * i) in
         case slice_from (b d) (unat s) of
           None \<Rightarrow> Panicked
         | Some data \<Rightarrow>
             (case Unpack packs data MethodIdItem_tags (MethodIdItem_fields zero_MethodIdItem) of
                Panicked \<Rightarrow> Panicked
              | Returned (st, _, err) \<Rightarrow>
                  if err \<noteq> None then Returned (d, err)
                  else readMethods_loop packs
                         (d\<lparr>Methods := (Methods d)[i := MethodIdItem_of st]\<rparr>) (Suc i)))
      else Returned (d, None))"
  by pat_completeness auto
termination
  by (relation "measure (\<lambda>(packs, d, i). unat (MethodIdsSize (header d)) - i)") auto

declare readMethods_loop.simps [simp del]

definition readMethods :: "registry \<Rightarrow> DEX \<Rightarrow> (DEX \<times> error option) outcome" where
  "readMethods packs d =
     readMethods_loop packs
       (d\<lparr>Methods := replicate (unat (MethodIdsSize (header d))) zero_MethodIdItem\<rparr>) 0"

subsection \<open>The closures Parse registers for each class\<close>

text \<open>
  For every class, \<open>Parse\<close> registers six closures over \<open>class_def_item\<close>, the class
  being read, over the file \<open>b\<close> and over \<open>dex\<close>, and then unpacks the class: the
  struct a closure is called for is the struct it captured, or a part of it. A closure
  looks the registry up when it runs. By then the registry holds the closure itself,
  which no HOL value can; so each closure takes as an argument the registry that its
  own calls go through. That is sound because \<open>Unpack\<close> looks up nothing but the tags
  of its target (\<open>Unpack_registry_cong\<close> below).

  The four list closures: a running index starts at 0, each element is unpacked, its
  difference is added to the index, and the table entry at the index is stored in the
  element. The index is a \<open>uint64\<close>, and indexing the table with it panics when it
  is out of range.
\<close>

lemma unat_plus_one_below: "unat (j::uint64) < unat (sz::uint64) \<Longrightarrow> unat (j + 1) = Suc (unat j)"
proof -
  assume "unat j < unat sz"
  moreover have "unat sz < 2 ^ 64" using unsigned_less[of sz] by simp
  ultimately have "Suc (unat j) < 2 ^ 64" by simp
  then show ?thesis by (simp add: unat_word_ariths)
qed

function EncodedField_loop ::
  "registry \<Rightarrow> DEX \<Rightarrow> slice \<Rightarrow> uint64 \<Rightarrow> uint64 \<Rightarrow> nat \<Rightarrow> uint64 \<Rightarrow> EncodedField list
     \<Rightarrow> (EncodedField list \<times> nat) outcome" where
  "EncodedField_loop packs dex data sz j offset field_idx efs =
     (if j < sz then
        (case slice_from data offset of
           None \<Rightarrow> Panicked
         | Some d \<Rightarrow>
             (case Unpack packs d EncodedField_tags (EncodedField_fields zero_EncodedField) of
                Panicked \<Rightarrow> Panicked
              | Returned (st, lngth, _) \<Rightarrow>
                  (let ef = EncodedField_of st;
                       field_idx' = field_idx + FieldIdxDiff ef
                   in if unat field_idx' < length (Fields dex)
                      then EncodedField_loop packs dex data sz (j + 1) (offset + lngth) field_idx'
                             (efs[unat j := ef\<lparr>Field := Fields dex ! unat field_idx'\<rparr>])
                      else Panicked)))
      else Returned (efs, offset))"
  by pat_completeness auto
termination
  by (relation "measure (\<lambda>(packs, dex, data, sz, j, rest). unat sz - unat j)")
     (auto simp: word_less_nat_alt unat_plus_one_below)

declare EncodedField_loop.simps [simp del]

function EncodedMethod_loop ::
  "registry \<Rightarrow> DEX \<Rightarrow> slice \<Rightarrow> uint64 \<Rightarrow> uint64 \<Rightarrow> nat \<Rightarrow> uint64 \<Rightarrow> EncodedMethod list
     \<Rightarrow> (EncodedMethod list \<times> nat) outcome" where
  "EncodedMethod_loop packs dex data sz j offset method_idx ems =
     (if j < sz then
        (case slice_from data offset of
           None \<Rightarrow> Panicked
         | Some d \<Rightarrow>
             (case Unpack packs d EncodedMethod_tags (EncodedMethod_fields zero_EncodedMethod) of
                Panicked \<Rightarrow> Panicked
              | Returned (st, lngth, _) \<Rightarrow>
                  (let em = EncodedMethod_of st;
                       method_idx' = method_idx + MethodIdxDiff em
                   in if unat method_idx' < length (Methods dex)
                      then EncodedMethod_loop packs dex data sz (j + 1) (offset + lngth) method_idx'
                             (ems[unat j := em\<lparr>Method := Methods dex ! unat method_idx'\<rparr>])
                      else Panicked)))
      else Returned (ems, offset))"
  by pat_completeness auto
termination
  by (relation "measure (\<lambda>(packs, dex, data, sz, j, rest). unat sz - unat j)")
     (auto simp: word_less_nat_alt unat_plus_one_below)

declare EncodedMethod_loop.simps [simp del]

text \<open>
  Fields 0 to 3 of the class-data struct are the four sizes, fields 4 to 7 the four
  lists.
\<close>

definition staticfields :: "registry \<Rightarrow> DEX \<Rightarrow> PackFunc" where
  "staticfields packs dex data i st =
     (let sz = the_U64 (st ! 0) in
      case EncodedField_loop packs dex data sz 0 0 0 (replicate (unat sz) zero_EncodedField) of
        Panicked \<Rightarrow> Panicked
      | Returned (efs, offset) \<Rightarrow> Returned (st[4 := EncodedFieldsV efs], offset, None))"

definition instancefields :: "registry \<Rightarrow> DEX \<Rightarrow> PackFunc" where
  "instancefields packs dex data i st =
     (let sz = the_U64 (st ! 1) in
      case EncodedField_loop packs dex data sz 0 0 0 (replicate (unat sz) zero_EncodedField) of
        Panicked \<Rightarrow> Panicked
      | Returned (efs, offset) \<Rightarrow> Returned (st[5 := EncodedFieldsV efs], offset, None))"

definition directmethods :: "registry \<Rightarrow> DEX \<Rightarrow> PackFunc" where
  "directmethods packs dex data i st =
     (let sz = the_U64 (st ! 2) in
      case EncodedMethod_loop packs dex data sz 0 0 0 (replicate (unat sz) zero_EncodedMethod) of
        Panicked \<Rightarrow> Panicked
      | Returned (ems, offset) \<Rightarrow> Returned (st[6 := EncodedMethodsV ems], offset, None))"

definition virtualmethods :: "registry \<Rightarrow> DEX \<Rightarrow> PackFunc" where
  "virtualmethods packs dex data i st =
     (let sz = the_U64 (st ! 3) in
      case EncodedMethod_loop packs dex data sz 0 0 0 (replicate (unat sz) zero_EncodedMethod) of
        Panicked \<Rightarrow> Panicked
      | Returned (ems, offset) \<Rightarrow> Returned (st[7 := EncodedMethodsV ems], offset, None))"

text \<open>
  \<open>classdata\<close>: the offset is read with the \<open>uint\<close> codec; unless it is 0 the
  class-data item at that offset of the file is unpacked into field 7 of the class,
  and what that \<open>Unpack\<close> returns is dropped.
\<close>

definition classdata :: "registry \<Rightarrow> slice \<Rightarrow> PackFunc" where
  "classdata packs buf data i st =
     (case call_on_var packs ''uint'' data (U32 0) of
        Panicked \<Rightarrow> Panicked
      | Returned (v, lngth, err) \<Rightarrow>
          (let offset = the_U32 v in
           if offset = 0 then Returned (st, lngth, err)
           else
             (case slice_from buf (unat offset) of
                None \<Rightarrow> Panicked
              | Some d \<Rightarrow>
                  (case Unpack packs d ClassDataItem_tags
                          (ClassDataItem_fields (the_ClassDataItem (st ! 7))) of
                     Panicked \<Rightarrow> Panicked
                   | Returned (cd, _, _) \<Rightarrow>
                       Returned (st[7 := ClassDataItemV (ClassDataItem_of cd)], lngth, err)))))"

text \<open>
  \<open>staticvalues\<close>: the offset and, at that offset of the file, the size are read;
  then each value starts with a call of \<open>packs["ubyte"]\<close>. The loop over \<open>k\<close> runs
  from 0 to \<open>size2\<close>, which is at most 7, so \<open>k\<close> is a natural number here. The two
  \<open>Printf\<close> calls of the loop are left out.
\<close>

definition VALUE_STRING :: uint32 where
  "VALUE_STRING = 0x17"

function stringIdx_loop :: "slice \<Rightarrow> uint32 \<Rightarrow> nat \<Rightarrow> nat \<Rightarrow> uint32 \<Rightarrow> uint32 option" where
  "stringIdx_loop buf offset size2 k stringIdx =
     (if k \<le> size2 then
        (case index buf (unat (offset + 1 + of_nat k)) of
           None \<Rightarrow> None
         | Some x \<Rightarrow> stringIdx_loop buf offset size2 (Suc k) (stringIdx + push_bit (k * 8) (ucast x)))
      else Some stringIdx)"
  by pat_completeness auto
termination
  by (relation "measure (\<lambda>(buf, offset, size2, k, s). Suc size2 - k)") auto

declare stringIdx_loop.simps [simp del]

function staticvalues_loop ::
  "registry \<Rightarrow> slice \<Rightarrow> DEX \<Rightarrow> uint64 \<Rightarrow> uint64 \<Rightarrow> uint32 \<Rightarrow> nat \<Rightarrow> EncodedValue list
     \<Rightarrow> (EncodedValue list \<times> nat) outcome" where
  "staticvalues_loop packs buf dex sz j offset lngth evs =
     (if j < sz then
        (case slice_from buf (unat offset) of
           None \<Rightarrow> Panicked
         | Some d \<Rightarrow>
             (case call_on_var packs ''ubyte'' d (U32 0) of
                Panicked \<Rightarrow> Panicked
              | Returned (v, lngth', _) \<Rightarrow>
                  (let val = the_U32 v;
                       valueType = val AND 0x1f;
                       size2 = drop_bit 5 (ucast (val AND 0xE0) :: uint64);
                       offset' = offset + drop_bit 5 (val AND 0x0E);
                       evs' = evs[unat j := zero_EncodedValue]
                   in if valueType = VALUE_STRING then
                        (case stringIdx_loop buf offset (unat size2) 0 0 of
                           None \<Rightarrow> Panicked
                         | Some stringIdx \<Rightarrow>
                             if unat stringIdx < length (Strings dex)
                             then staticvalues_loop packs buf dex sz (j + 1) offset' lngth' evs'
                             else Panicked)
                      else staticvalues_loop packs buf dex sz (j + 1) offset' lngth' evs')))
      else Returned (evs, lngth))"
  by pat_completeness auto
termination
  by (relation "measure (\<lambda>(packs, buf, dex, sz, j, rest). unat sz - unat j)")
     (auto simp: word_less_nat_alt unat_plus_one_below)

declare staticvalues_loop.simps [simp del]

definition staticvalues :: "registry \<Rightarrow> slice \<Rightarrow> DEX \<Rightarrow> PackFunc" where
  "staticvalues packs buf dex data i st =
     (case call_on_var packs ''uint'' data (U32 0) of
        Panicked \<Rightarrow> Panicked
      | Returned (v, lngth, err) \<Rightarrow>
          (let offset = the_U32 v in
           if offset = 0 then Returned (st, lngth, err)
           else
             (case slice_from buf (unat offset) of
                None \<Rightarrow> Panicked
              | Some d \<Rightarrow>
                  (case call_on_var packs ''uleb128'' d (U64 0) of
                     Panicked \<Rightarrow> Panicked
                   | Returned (sz, lngth', err') \<Rightarrow>
                       (let sz = the_U64 sz;
                            offset' = offset + of_nat lngth'
                        in case staticvalues_loop packs buf dex sz 0 offset' lngth'
                                  (replicate (unat sz) zero_EncodedValue) of
                             Panicked \<Rightarrow> Panicked
                           | Returned (evs, lngth'') \<Rightarrow>
                               Returned (st[8 := EncodedValuesV evs], lngth'', err'))))))"

text \<open>
  The registry as it is when a class is unpacked: the six closures on top of what was
  registered before. The list closures unpack encoded fields and methods, whose tags
  are built in; \<open>classdata\<close> unpacks a class-data item, whose tags are built in or
  name a list closure; \<open>staticvalues\<close> looks up \<open>uint\<close>, \<open>uleb128\<close> and \<open>ubyte\<close>.
\<close>

definition register_lists :: "registry \<Rightarrow> DEX \<Rightarrow> registry \<Rightarrow> registry" where
  "register_lists inner dex packs =
     RegisterPack ''virtualmethods'' (virtualmethods inner dex)
       (RegisterPack ''directmethods'' (directmethods inner dex)
         (RegisterPack ''instancefields'' (instancefields inner dex)
           (RegisterPack ''staticfields'' (staticfields inner dex) packs)))"

definition class_packs :: "registry \<Rightarrow> DEX \<Rightarrow> registry" where
  "class_packs packs dex =
     RegisterPack ''staticvalues'' (staticvalues packs (b dex) dex)
       (register_lists packs dex
         (RegisterPack ''classdata'' (classdata (register_lists packs dex packs) (b dex)) packs))"

subsection \<open>Parse\<close>

function Parse_classes :: "registry \<Rightarrow> DEX \<Rightarrow> nat \<Rightarrow> DEX outcome" where
  "Parse_classes packs dex i =
     (if i < unat (ClassDefsSize (header dex)) then
        (let s = ClassDefsOffset (header dex) + of_nat (32 * i) in
         case slice_from (b dex) (unat s) of
           None \<Rightarrow> Panicked
         | Some d \<Rightarrow>
             (case Unpack (class_packs packs dex) d ClassDefItem_tags
                     (ClassDefItem_fields zero_ClassDefItem) of
                Panicked \<Rightarrow> Panicked
              | Returned (st, _, _) \<Rightarrow>
                  Parse_classes packs
                    (dex\<lparr>Classes := (Classes dex)[i := ClassDefItem_of st]\<rparr>) (Suc i)))
      else Returned dex)"
  by pat_completeness auto
termination
  by (relation "measure (\<lambda>(packs, dex, i). unat (ClassDefsSize (header dex)) - i)") auto

declare Parse_classes.simps [simp del]

text \<open>\<open>if err := f(); err != nil { return err }\<close>\<close>

definition or_return ::
  "(DEX \<times> error option) outcome \<Rightarrow> (DEX \<Rightarrow> (DEX \<times> error option) outcome)
     \<Rightarrow> (DEX \<times> error option) outcome" where
  "or_return r k =
     (case r of
        Panicked \<Rightarrow> Panicked
      | Returned (d, err) \<Rightarrow> if err \<noteq> None then Returned (d, err) else k d)"

definition Parse :: "registry \<Rightarrow> DEX \<Rightarrow> (DEX \<times> error option) outcome" where
  "Parse packs dex =
     or_return (readHeader packs dex) (\<lambda>d.
     or_return (readStrings d) (\<lambda>d.
     or_return (readTypes packs d) (\<lambda>d.
     or_return (readPrototypes packs d) (\<lambda>d.
     or_return (readFields packs d) (\<lambda>d.
     or_return (readMethods packs d) (\<lambda>d.
       (case Parse_classes packs
               (d\<lparr>Classes := replicate (unat (ClassDefsSize (header d))) zero_ClassDefItem\<rparr>) 0 of
          Panicked \<Rightarrow> Panicked
        | Returned d' \<Rightarrow> Returned (d', None))))))))"

section \<open>dex.go: Open\<close>

text \<open>
  The file system is a function from paths to what \<open>os.Open\<close> and \<open>ioutil.ReadAll\<close>
  give there: an error of the one or of the other, or the bytes of the file. \<open>Open\<close>
  calls \<open>dex.Parse()\<close> as a statement, so the error \<open>Parse\<close> returns goes nowhere.
\<close>

datatype file_state = OpenError error | ReadError error | File slice

definition new_DEX :: "slice \<Rightarrow> DEX" where
  "new_DEX buf =
     \<lparr>b = buf, header = zero_Header, Strings = [], Types = [], Prototypes = [],
      Fields = [], Methods = [], Classes = []\<rparr>"

definition Open :: "registry \<Rightarrow> (string \<Rightarrow> file_state) \<Rightarrow> string \<Rightarrow> (DEX option \<times> error option) outcome" where
  "Open packs fs path =
     (case fs path of
        OpenError err \<Rightarrow> Returned (None, Some err)
      | ReadError err \<Rightarrow> Returned (None, Some err)
      | File buf \<Rightarrow>
          (case Parse packs (new_DEX buf) of
             Panicked \<Rightarrow> Panicked
           | Returned (dex, _) \<Rightarrow> Returned (Some dex, None)))"

text \<open>
  The older copy of dex.go (src/unnamed/part_001) has the same \<open>Open\<close> but for the
  argument of \<open>os.Open\<close>, which is the fixed name \<open>classes.dex\<close>: the path is not
  used. Its \<open>Parse\<close> differs from the current one in the class loop; \<open>Open\<close> calls it
  as a statement as well, so it is a parameter here.
\<close>

definition Open_part_001 ::
  "(DEX \<Rightarrow> (DEX \<times> error option) outcome) \<Rightarrow> (string \<Rightarrow> file_state) \<Rightarrow> string
     \<Rightarrow> (DEX option \<times> error option) outcome" where
  "Open_part_001 parse fs path =
     (case fs ''classes.dex'' of
        OpenError err \<Rightarrow> Returned (None, Some err)
      | ReadError err \<Rightarrow> Returned (None, Some err)
      | File buf \<Rightarrow>
          (case parse (new_DEX buf) of
             Panicked \<Rightarrow> Panicked
           | Returned (dex, _) \<Rightarrow> Returned (Some dex, None)))"

section \<open>What the class-data lists are to contain\<close>




definition numbered_methods :: "nat \<Rightarrow> MethodIdItem list" where
  "numbered_methods n =
     map (\<lambda>k. \<lparr>MethodIdItem.ClassIdx = 0, ProtoIdx = 0, NameIdx = of_nat k\<rparr>) [0..<n]"

text \<open>
  Modelled from the spec: the repository has no encoder. A class-data item on disk is
  the four sizes, then the four lists; an encoded field is its index difference and
  its access flags, an encoded method its index difference, its access flags and its
  code offset, each a ULEB128 number.
\<close>

definition encode_field :: "uint32 \<times> uint32 \<Rightarrow> byte list" where
  "encode_field f = uleb128_encode (fst f) @ uleb128_encode (snd f)"

definition encode_method :: "uint32 \<times> uint32 \<times> uint32 \<Rightarrow> byte list" where
  "encode_method m =
     uleb128_encode (fst m) @ uleb128_encode (fst (snd m)) @ uleb128_encode (snd (snd m))"

definition encode_class_data ::
  "(uint32 \<times> uint32) list \<Rightarrow> (uint32 \<times> uint32) list
     \<Rightarrow> (uint32 \<times> uint32 \<times> uint32) list \<Rightarrow> (uint32 \<times> uint32 \<times> uint32) list \<Rightarrow> byte list" where
  "encode_class_data sfs ifs dms vms =
     uleb128_encode (of_nat (length sfs)) @ uleb128_encode (of_nat (length ifs))
     @ uleb128_encode (of_nat (length dms)) @ uleb128_encode (of_nat (length vms))
     @ concat (map encode_field sfs) @ concat (map encode_field ifs)
     @ concat (map encode_method dms) @ concat (map encode_method vms)"

text \<open>
  The rule of the specification for the absolute indices of one list: the running
  index starts at \<open>idx\<close>, 0 for a whole list, and each difference is added to it in
  turn. The decoded element keeps its difference and refers to the table entry at its
  absolute index.
\<close>

fun absolute_indices :: "uint64 \<Rightarrow> uint64 list \<Rightarrow> uint64 list" where
  "absolute_indices idx [] = []"
| "absolute_indices idx (d # ds) = (idx + d) # absolute_indices (idx + d) ds"

definition field_diffs :: "(uint32 \<times> uint32) list \<Rightarrow> uint64 list" where
  "field_diffs fs = map (\<lambda>f. ucast (fst f)) fs"

definition method_diffs :: "(uint32 \<times> uint32 \<times> uint32) list \<Rightarrow> uint64 list" where
  "method_diffs ms = map (\<lambda>m. ucast (fst m)) ms"

definition indices_in :: "nat \<Rightarrow> uint64 list \<Rightarrow> bool" where
  "indices_in n diffs = list_all (\<lambda>k. unat k < n) (absolute_indices 0 diffs)"

definition resolved_field :: "FieldIdItem list \<Rightarrow> uint32 \<times> uint32 \<Rightarrow> uint64 \<Rightarrow> EncodedField" where
  "resolved_field tbl f k =
     \<lparr>Field = tbl ! unat k, FieldIdxDiff = ucast (fst f), EncodedField.AccessFlags = snd f\<rparr>"

definition resolved_method ::
  "MethodIdItem list \<Rightarrow> uint32 \<times> uint32 \<times> uint32 \<Rightarrow> uint64 \<Rightarrow> EncodedMethod" where
  "resolved_method tbl m k =
     \<lparr>Method = tbl ! unat k, MethodIdxDiff = ucast (fst m),
      EncodedMethod.AccessFlags = fst (snd m), CodeOffset = ucast (snd (snd m))\<rparr>"

definition resolved_fields :: "FieldIdItem list \<Rightarrow> (uint32 \<times> uint32) list \<Rightarrow> EncodedField list" where
  "resolved_fields tbl fs = map2 (resolved_field tbl) fs (absolute_indices 0 (field_diffs fs))"

definition resolved_methods ::
  "MethodIdItem list \<Rightarrow> (uint32 \<times> uint32 \<times> uint32) list \<Rightarrow> EncodedMethod list" where
  "resolved_methods tbl ms = map2 (resolved_method tbl) ms (absolute_indices 0 (method_diffs ms))"

definition decoded_class_data ::
  "DEX \<Rightarrow> (uint32 \<times> uint32) list \<Rightarrow> (uint32 \<times> uint32) list
     \<Rightarrow> (uint32 \<times> uint32 \<times> uint32) list \<Rightarrow> (uint32 \<times> uint32 \<times> uint32) list \<Rightarrow> ClassDataItem" where
  "decoded_class_data dex sfs ifs dms vms =
     \<lparr>StaticFieldSize = of_nat (length sfs), InstanceFieldSize = of_nat (length ifs),
      DirectMethodsSize = of_nat (length dms), VirtualMethodsSize = of_nat (length vms),
      StaticFields = resolved_fields (Fields dex) sfs,
      InstanceFields = resolved_fields (Fields dex) ifs,
      DirectMethods = resolved_methods (Methods dex) dms,
      VirtualMethods = resolved_methods (Methods dex) vms\<rparr>"

section \<open>dex.go: the disassembler\<close>

subsection \<open>The instruction table\<close>




subsection \<open>Formatting\<close>







subsection \<open>Disassemble\<close>










section \<open>Properties of slices\<close>

lemma slice_from_zero: "slice_from buf 0 = Some buf"
  by (simp add: slice_from_def)

lemma starts_with_index:
  "starts_with s bs \<Longrightarrow> j < length bs \<Longrightarrow> index s j = Some (bs ! j)"
proof -
  assume a: "starts_with s bs" and j: "j < length bs"
  then have "take (length bs) (backing s) ! j = bs ! j"
    by (simp add: starts_with_def)
  with j have "backing s ! j = bs ! j" by simp
  with a j show ?thesis by (simp add: starts_with_def index_def)
qed

lemma starts_with_prefix: "starts_with s (xs @ ys) \<Longrightarrow> starts_with s xs"
proof -
  assume a: "starts_with s (xs @ ys)"
  then have "take (length xs) (take (length (xs @ ys)) (backing s)) = take (length xs) (xs @ ys)"
    by (simp only: starts_with_def)
  then have "take (length xs) (backing s) = xs" by (simp add: min_def)
  with a show ?thesis by (simp add: starts_with_def)
qed

lemma starts_with_suffix:
  assumes "slice_from data off = Some d" "starts_with d (xs @ ys)"
  shows "\<exists>d'. slice_from data (off + length xs) = Some d' \<and> starts_with d' ys"
proof -
  from assms(1) have off: "off \<le> len data" and d: "d = Slice (drop off (backing data)) (len data - off)"
    by (auto simp: slice_from_def split: if_splits)
  from assms(2) d have l: "length xs + length ys \<le> len data - off"
    and t: "take (length xs + length ys) (drop off (backing data)) = xs @ ys"
    by (simp_all add: starts_with_def)
  from t have "drop (length xs) (take (length xs + length ys) (drop off (backing data))) = ys"
    by simp
  then have "take (length ys) (drop (off + length xs) (backing data)) = ys"
    by (simp add: drop_take add.commute)
  moreover have "off + length xs \<le> len data" using l off by arith
  moreover have "length ys \<le> len data - (off + length xs)" using l off by arith
  ultimately show ?thesis
    by (simp add: slice_from_def starts_with_def)
qed

lemma starts_with_bytes: "starts_with (bytes (xs @ ys)) xs"
  by (simp add: starts_with_def bytes_def)

section \<open>Properties of the ULEB128 decoder and the string reader\<close>

lemma unat_drop_bit7: "unat (drop_bit 7 (v::uint32)) = unat v div 128"
  by (simp add: unat_drop_bit_eq drop_bit_eq_div unat_div)

lemma encode_length_le:
  "unat v < 2 ^ (7 * k) \<Longrightarrow> 0 < k \<Longrightarrow> length (uleb128_encode v) \<le> k"
proof (induction k arbitrary: v)
  case 0
  then show ?case by simp
next
  case (Suc k)
  show ?case
  proof (cases "v < 0x80")
    case True
    then show ?thesis by (simp add: uleb128_encode.simps)
  next
    case False
    then have k0: "0 < k"
      using Suc.prems by (cases k) (auto simp: word_less_nat_alt)
    have "unat v < 2 ^ (7 * k) * 128"
      using Suc.prems(1) by (simp add: power_add)
    then have "unat (drop_bit 7 v) < 2 ^ (7 * k)"
      unfolding unat_drop_bit7 by (rule less_mult_imp_div_less)
    from Suc.IH[OF this k0] False show ?thesis
      by (simp add: uleb128_encode.simps[of v])
  qed
qed

lemma encode_length_le5: "length (uleb128_encode v) \<le> 5"
proof -
  have "unat v < 2 ^ 32" using unsigned_less[of v] by simp
  then have "unat v < 2 ^ (7 * 5)" by simp
  then show ?thesis by (rule encode_length_le) simp
qed

lemma take_bit7_small: "v < 0x80 \<Longrightarrow> take_bit 7 (v::uint32) = v"
proof -
  assume "v < 0x80"
  then have "v < 2 ^ 7" by simp
  then have "v AND mask 7 = v" by (rule less_mask_eq)
  then show ?thesis by (simp add: take_bit_eq_mask)
qed

lemma mask7_uint32: "(0x7F :: uint32) = mask 7"
  by (simp add: mask_eq_exp_minus_1)

lemma mask7_byte: "(0x7F :: byte) = mask 7"
  by (simp add: mask_eq_exp_minus_1)

lemma continuation_payload:
  "(ucast (((ucast (v AND 0x7F :: uint32) :: byte) OR 0x80) AND 0x7F) :: uint32) = take_bit 7 v"
proof -
  have "((ucast (v AND 0x7F :: uint32) :: byte) OR 0x80) AND 0x7F = (ucast (v AND 0x7F) :: byte) AND 0x7F"
    by (simp add: word_ao_dist)
  moreover have "(ucast ((ucast (v AND mask 7 :: uint32) :: byte) AND mask 7) :: uint32) = take_bit 7 v"
    by (rule bit_eqI) (auto simp add: bit_simps)
  ultimately show ?thesis
    by (simp only: mask7_uint32 mask7_byte)
qed

lemma continuation_flag:
  "((ucast (v AND 0x7F :: uint32) :: byte) OR 0x80) AND 0x80 = 0x80"
  by (simp add: word_bw_comms(1) word_bw_lcs word_ao_absorbs)

lemma final_payload:
  assumes "v < 0x80"
  shows "(ucast (ucast (v :: uint32) :: byte) :: uint32) = v"
proof -
  have "(ucast (ucast (take_bit 7 v) :: byte) :: uint32) = take_bit 7 v"
    by (rule bit_eqI) (auto simp add: bit_simps)
  then show ?thesis using take_bit7_small[OF assms] by simp
qed

lemma final_flag:
  assumes "v < 0x80"
  shows "(ucast (v :: uint32) :: byte) AND 0x80 \<noteq> 0x80"
proof -
  have "\<not> bit (ucast (take_bit 7 v) :: byte) 7"
    by (simp add: bit_simps)
  then have "\<not> bit ((ucast v :: byte) AND 0x80) 7"
    using take_bit7_small[OF assms] by (simp add: bit_simps)
  moreover have "bit (0x80 :: byte) 7"
    by (simp add: bit_iff_odd)
  ultimately show ?thesis by metis
qed

text \<open>The decoder, resumed at byte \<open>i\<close> with the value accumulated so far.\<close>

lemma index_bytes_append:
  "index (bytes (pre @ x # xs)) (length pre) = Some x"
  by (simp add: index_def bytes_def)

lemma unat_small_mult7: "unat (i::uint32) < 5 \<Longrightarrow> unat (7 * i) = 7 * unat i"
  by (simp add: unat_word_ariths)

lemma unat_small_suc: "unat (i::uint32) < 5 \<Longrightarrow> unat (i + 1) = unat i + 1"
  by (simp add: unat_word_ariths)

lemma uleb128_eq_from: "uleb128 data = uleb128_from data 0 0"
  by (simp add: uleb128_def uleb128_from_def)

lemma from_step_stop:
  assumes "unat i < 5" "index data (unat i) = Some d" "d AND 0x80 \<noteq> 0x80"
  shows "uleb128_from data i val = Returned (val + push_bit (7 * unat i) (ucast d), i + 1)"
proof -
  have "i < 5" using assms(1) by (simp add: word_less_nat_alt)
  then have "uleb128_loop data i val = Returned (i, val)"
    using assms by (simp add: uleb128_loop.simps[of data i val])
  then show ?thesis
    using assms by (simp add: uleb128_from_def unat_small_mult7)
qed

lemma from_step_cont:
  assumes "unat i < 5" "index data (unat i) = Some d" "d AND 0x80 = 0x80"
  shows "uleb128_from data i val =
         uleb128_from data (i + 1) (val + push_bit (7 * unat i) (ucast (d AND 0x7F)))"
proof -
  have "i < 5" using assms(1) by (simp add: word_less_nat_alt)
  then have "uleb128_loop data i val =
        uleb128_loop data (i + 1) (val + push_bit (7 * unat i) (ucast (d AND 0x7F)))"
    using assms by (simp add: uleb128_loop.simps[of data i val] unat_small_mult7)
  then show ?thesis
    by (simp add: uleb128_from_def)
qed

lemma from_encode:
  "unat i + length (uleb128_encode v) \<le> 5 \<Longrightarrow> length pre = unat i \<Longrightarrow>
   uleb128_from (bytes (pre @ uleb128_encode v)) i val =
     Returned (val + push_bit (7 * unat i) v, i + of_nat (length (uleb128_encode v)))"
proof (induction v arbitrary: i pre val rule: uleb128_encode.induct)
  case (1 v)
  show ?case
  proof (cases "v < 0x80")
    case True
    then have e: "uleb128_encode v = [ucast v]"
      by (simp add: uleb128_encode.simps[of v])
    have i5: "unat i < 5" using "1.prems"(1) e by simp
    have ix: "index (bytes (pre @ uleb128_encode v)) (unat i) = Some (ucast v)"
      unfolding e using index_bytes_append[of pre "ucast v" "[]"] "1.prems"(2) by simp
    show ?thesis
      using from_step_stop[OF i5 ix final_flag[OF True], of val]
      by (simp add: e final_payload[OF True])
  next
    case False
    let ?c = "(ucast (v AND 0x7F) :: byte) OR 0x80"
    let ?rest = "uleb128_encode (drop_bit 7 v)"
    have e: "uleb128_encode v = ?c # ?rest"
      using False by (simp add: uleb128_encode.simps[of v])
    have i5: "unat i < 5" using "1.prems"(1) e by simp
    have ix: "index (bytes (pre @ uleb128_encode v)) (unat i) = Some ?c"
      unfolding e using index_bytes_append[of pre ?c ?rest] "1.prems"(2) by simp
    have st: "uleb128_from (bytes (pre @ uleb128_encode v)) i val =
         uleb128_from (bytes (pre @ uleb128_encode v)) (i + 1)
           (val + push_bit (7 * unat i) (take_bit 7 v))"
      using from_step_cont[OF i5 ix continuation_flag, of val]
      by (simp only: continuation_payload)
    have p1: "unat (i + 1) + length ?rest \<le> 5"
      using "1.prems"(1) e unat_small_suc[OF i5] by simp
    have p2: "length (pre @ [?c]) = unat (i + 1)"
      using "1.prems"(2) unat_small_suc[OF i5] by simp
    have ih: "uleb128_from (bytes ((pre @ [?c]) @ ?rest)) (i + 1)
                (val + push_bit (7 * unat i) (take_bit 7 v)) =
        Returned (val + push_bit (7 * unat i) (take_bit 7 v)
                    + push_bit (7 * unat (i + 1)) (drop_bit 7 v),
                  i + 1 + of_nat (length ?rest))"
      using "1.IH"[OF False p1 p2] .
    have v: "push_bit (7 * unat i) (take_bit 7 v) + push_bit (7 * unat (i + 1)) (drop_bit 7 v)
          = push_bit (7 * unat i) v"
    proof -
      have s: "7 * unat (i + 1) = 7 * unat i + 7"
        using unat_small_suc[OF i5] by simp
      have "push_bit (7 * unat (i + 1)) (drop_bit 7 v)
              = push_bit (7 * unat i) (push_bit 7 (drop_bit 7 v))"
        unfolding s by (simp add: push_bit_push_bit)
      then have "push_bit (7 * unat i) (take_bit 7 v) + push_bit (7 * unat (i + 1)) (drop_bit 7 v)
          = push_bit (7 * unat i) (push_bit 7 (drop_bit 7 v) + take_bit 7 v)"
        by (simp add: push_bit_add add.commute)
      then show ?thesis by (simp only: bits_ident)
    qed
    show ?thesis
      unfolding st using ih v by (simp add: e add.assoc)
  qed
qed

lemma uleb128_roundtrip:
  "uleb128 (bytes (uleb128_encode v)) = Returned (v, of_nat (length (uleb128_encode v)))"
  using from_encode[of 0 v "[]" 0] encode_length_le5[of v]
  by (simp add: uleb128_eq_from)

lemmas uleb128_eval =
  uleb128_def uleb128_loop.simps bytes_def index_def

text \<open>
  C5. Encoding any 32-bit value and decoding the bytes gives the value back, and the
  count the decoder reports is the number of bytes of the encoding. The decoder maps
  \<open>00\<close> to 0, \<open>01\<close> to 1, \<open>7F\<close> to 127, \<open>80 7F\<close> to 16256 and \<open>E5 8E 26\<close> to
  624485, reporting 1, 1, 1, 2 and 3 bytes.
\<close>

theorem uleb128_roundtrip_and_golden_values:
  "uleb128 (bytes (uleb128_encode v)) = Returned (v, of_nat (length (uleb128_encode v)))
   \<and> uleb128 (bytes [0x00]) = Returned (0, 1)
   \<and> uleb128 (bytes [0x01]) = Returned (1, 1)
   \<and> uleb128 (bytes [0x7F]) = Returned (127, 1)
   \<and> uleb128 (bytes [0x80, 0x7F]) = Returned (16256, 2)
   \<and> uleb128 (bytes [0xE5, 0x8E, 0x26]) = Returned (624485, 3)"
proof -
  have g0: "uleb128 (bytes [0x00]) = Returned (0, 1)"
    by (simp add: uleb128_eval)
  have g1: "uleb128 (bytes [0x01]) = Returned (1, 1)"
    by (simp add: uleb128_eval)
  have g2: "uleb128 (bytes [0x7F]) = Returned (127, 1)"
    by (simp add: uleb128_eval)
  have g3: "uleb128 (bytes [0x80, 0x7F]) = Returned (16256, 2)"
    by (simp add: uleb128_eval)
  have g4: "uleb128 (bytes [0xE5, 0x8E, 0x26]) = Returned (624485, 3)"
    by (simp add: uleb128_eval)
  show ?thesis
    using uleb128_roundtrip g0 g1 g2 g3 g4 by simp
qed

subsection \<open>Decoding an encoding found at the start of a slice\<close>

lemma from_encode_at:
  "unat i + length (uleb128_encode v) \<le> 5 \<Longrightarrow>
   (\<And>j. j < length (uleb128_encode v) \<Longrightarrow> index data (unat i + j) = Some (uleb128_encode v ! j)) \<Longrightarrow>
   uleb128_from data i val =
     Returned (val + push_bit (7 * unat i) v, i + of_nat (length (uleb128_encode v)))"
proof (induction v arbitrary: i val rule: uleb128_encode.induct)
  case (1 v)
  show ?case
  proof (cases "v < 0x80")
    case True
    then have e: "uleb128_encode v = [ucast v]"
      by (simp add: uleb128_encode.simps[of v])
    have i5: "unat i < 5" using "1.prems"(1) e by simp
    have ix: "index data (unat i) = Some (ucast v)"
      using "1.prems"(2)[of 0] e by simp
    show ?thesis
      using from_step_stop[OF i5 ix final_flag[OF True], of val]
      by (simp add: e final_payload[OF True])
  next
    case False
    let ?c = "(ucast (v AND 0x7F) :: byte) OR 0x80"
    let ?rest = "uleb128_encode (drop_bit 7 v)"
    have e: "uleb128_encode v = ?c # ?rest"
      using False by (simp add: uleb128_encode.simps[of v])
    have i5: "unat i < 5" using "1.prems"(1) e by simp
    have ix: "index data (unat i) = Some ?c"
      using "1.prems"(2)[of 0] e by simp
    have st: "uleb128_from data i val =
         uleb128_from data (i + 1) (val + push_bit (7 * unat i) (take_bit 7 v))"
      using from_step_cont[OF i5 ix continuation_flag, of val]
      by (simp only: continuation_payload)
    have p1: "unat (i + 1) + length ?rest \<le> 5"
      using "1.prems"(1) e unat_small_suc[OF i5] by simp
    have p2: "\<And>j. j < length ?rest \<Longrightarrow> index data (unat (i + 1) + j) = Some (?rest ! j)"
    proof -
      fix j assume "j < length ?rest"
      then have "Suc j < length (uleb128_encode v)" using e by simp
      from "1.prems"(2)[OF this] show "index data (unat (i + 1) + j) = Some (?rest ! j)"
        using e unat_small_suc[OF i5] by simp
    qed
    have ih: "uleb128_from data (i + 1)
                (val + push_bit (7 * unat i) (take_bit 7 v)) =
        Returned (val + push_bit (7 * unat i) (take_bit 7 v)
                    + push_bit (7 * unat (i + 1)) (drop_bit 7 v),
                  i + 1 + of_nat (length ?rest))"
      using "1.IH"[OF False p1 p2] .
    have v: "push_bit (7 * unat i) (take_bit 7 v) + push_bit (7 * unat (i + 1)) (drop_bit 7 v)
          = push_bit (7 * unat i) v"
    proof -
      have s: "7 * unat (i + 1) = 7 * unat i + 7"
        using unat_small_suc[OF i5] by simp
      have "push_bit (7 * unat (i + 1)) (drop_bit 7 v)
              = push_bit (7 * unat i) (push_bit 7 (drop_bit 7 v))"
        unfolding s by (simp add: push_bit_push_bit)
      then have "push_bit (7 * unat i) (take_bit 7 v) + push_bit (7 * unat (i + 1)) (drop_bit 7 v)
          = push_bit (7 * unat i) (push_bit 7 (drop_bit 7 v) + take_bit 7 v)"
        by (simp add: push_bit_add add.commute)
      then show ?thesis by (simp only: bits_ident)
    qed
    show ?thesis
      unfolding st using ih v by (simp add: e add.assoc)
  qed
qed

lemma uleb128_on_encoding:
  assumes "starts_with d (uleb128_encode v @ rest)"
  shows "uleb128 d = Returned (v, of_nat (length (uleb128_encode v)))"
proof -
  have ix: "\<And>j. j < length (uleb128_encode v) \<Longrightarrow>
      index d (unat (0::uint32) + j) = Some (uleb128_encode v ! j)"
    using starts_with_index[OF starts_with_prefix[OF assms]] by simp
  from from_encode_at[of 0 v d 0, OF _ ix] encode_length_le5[of v]
  show ?thesis by (simp add: uleb128_eq_from)
qed

lemma encode_length_unat:
  "unat (of_nat (length (uleb128_encode v)) :: uint32) = length (uleb128_encode v)"
  using encode_length_le5[of v] by (simp add: unat_of_nat)

lemma ucast_32_64_32: "(ucast (ucast (v :: uint32) :: uint64) :: uint32) = v"
  by (rule bit_eqI) (auto simp add: bit_simps)

lemma unpackUleb128_U64:
  assumes "starts_with d (uleb128_encode v @ rest)"
  shows "unpackUleb128 d (U64 x) = Returned (U64 (ucast v), length (uleb128_encode v), None)"
  using uleb128_on_encoding[OF assms] by (simp add: unpackUleb128_def encode_length_unat)

lemma unpackUleb128_U32:
  assumes "starts_with d (uleb128_encode v @ rest)"
  shows "unpackUleb128 d (U32 x) = Returned (U32 v, length (uleb128_encode v), None)"
  using uleb128_on_encoding[OF assms]
  by (simp add: unpackUleb128_def encode_length_unat ucast_32_64_32)

lemma unat_ucast_32_64: "unat (ucast (w :: uint32) :: uint64) = unat w"
  by (simp add: unsigned_ucast_eq take_bit_nat_eq_self_iff) (rule less_trans[OF unsigned_less], simp)

lemma size_word:
  assumes "n < 2 ^ 32"
  shows "(ucast (of_nat n :: uint32) :: uint64) = of_nat n"
    and "unat (of_nat n :: uint64) = n"
proof -
  show "(ucast (of_nat n :: uint32) :: uint64) = of_nat n"
    using assms by (intro word_unat_eq_iff[THEN iffD2]) (simp add: unat_ucast_32_64 unat_of_nat)
  have "n < 2 ^ 64" using assms by (rule less_trans) simp
  then show "unat (of_nat n :: uint64) = n" by (simp add: unat_of_nat)
qed

text \<open>
  C4, as stated, fails. String data \<open>01 C2 A3 00\<close> is the one-character string
  U+00A3 followed by its terminator: the claim has \<open>str\<close> return the two bytes
  before the \<open>00\<close> and a count that passes the terminator. \<open>str\<close> returns one byte,
  because the prefix says 1, and the count 1, the length of the prefix.
\<close>

theorem str_ignores_terminator:
  "str (bytes [0x01, 0xC2, 0xA3, 0x00]) = Returned ([CHR 0xC2], 1)"
  by code_simp

text \<open>
  C4, amended. When \<open>str\<close> returns, the count it reports is the number of bytes of
  the ULEB128 prefix, and the string is made of as many bytes after the prefix as the
  value of the prefix says, whatever they are; they must lie within the capacity of the
  slice.
\<close>

theorem str_takes_prefix_value_bytes:
  assumes "str buf = Returned (s, i)"
  shows "\<exists>n. uleb128 buf = Returned (n, i) \<and> unat i + unat n \<le> cap buf
           \<and> s = map (\<lambda>w. char_of (unat w)) (take (unat n) (drop (unat i) (backing buf)))"
proof -
  from assms obtain n where u: "uleb128 buf = Returned (n, i)"
    and r: "slice_range buf (unat i) (unat (i + n)) \<noteq> None"
    and s: "s = string_of (the (slice_range buf (unat i) (unat (i + n))))"
    by (auto simp: str_def slice_from_zero split: outcome.splits option.splits prod.splits)
  from r have le: "unat i \<le> unat (i + n)" and c: "unat (i + n) \<le> cap buf"
    by (auto simp: slice_range_def split: if_splits)
  from le have "i \<le> i + n" by (simp add: word_le_nat_alt)
  then have sum: "unat (i + n) = unat i + unat n"
    by (simp add: unat_plus_simple)
  have "s = map (\<lambda>w. char_of (unat w)) (take (unat n) (drop (unat i) (backing buf)))"
    using s le c sum by (simp add: slice_range_def string_of_def contents_def)
  with u c sum show ?thesis by auto
qed

theorem str_takes_prefix_value_bytes_witness:
  "str (bytes [0x02, 0x68, 0x69, 0x00]) = Returned (''hi'', 1)
   \<and> (\<exists>n. uleb128 (bytes [0x02, 0x68, 0x69, 0x00]) = Returned (n, 1)
          \<and> unat (1::uint32) + unat n \<le> cap (bytes [0x02, 0x68, 0x69, 0x00])
          \<and> ''hi'' = map (\<lambda>w. char_of (unat w))
                (take (unat n) (drop (unat (1::uint32)) (backing (bytes [0x02, 0x68, 0x69, 0x00])))))"
proof -
  have e: "str (bytes [0x02, 0x68, 0x69, 0x00]) = Returned (''hi'', 1)"
    by code_simp
  from str_takes_prefix_value_bytes[OF e] e show ?thesis by simp
qed

section \<open>How many bytes the ULEB128 decoder takes\<close>

lemma loop_run:
  "list_all (\<lambda>c. c AND 0x80 = 0x80) cs \<Longrightarrow> unat i + length cs \<le> 5 \<Longrightarrow>
   (\<And>j. j < length cs \<Longrightarrow> index data (unat i + j) = Some (cs ! j)) \<Longrightarrow>
   uleb128_loop data i val = uleb128_loop data (i + of_nat (length cs)) (val + groups cs (unat i))"
proof (induction cs arbitrary: i val)
  case Nil
  then show ?case by simp
next
  case (Cons c cs)
  have i5: "unat i < 5" using Cons.prems(2) by simp
  then have il: "i < 5" by (simp add: word_less_nat_alt)
  have ix: "index data (unat i) = Some c" using Cons.prems(3)[of 0] by simp
  have c: "c AND 0x80 = 0x80" using Cons.prems(1) by simp
  have st: "uleb128_loop data i val =
        uleb128_loop data (i + 1) (val + push_bit (7 * unat i) (ucast (c AND 0x7F)))"
    using il ix c by (simp add: uleb128_loop.simps[of data i val] unat_small_mult7[OF i5])
  have s: "unat (i + 1) = Suc (unat i)" using unat_small_suc[OF i5] by simp
  have p1: "list_all (\<lambda>c. c AND 0x80 = 0x80) cs" using Cons.prems(1) by simp
  have p2: "unat (i + 1) + length cs \<le> 5" using Cons.prems(2) s by simp
  have p3: "\<And>j. j < length cs \<Longrightarrow> index data (unat (i + 1) + j) = Some (cs ! j)"
    using Cons.prems(3)[of "Suc _"] s by simp
  have "uleb128_loop data i val =
        uleb128_loop data (i + 1) (val + push_bit (7 * unat i) (ucast (c AND 0x7F)))"
    by (rule st)
  also have "\<dots> = uleb128_loop data (i + 1 + of_nat (length cs))
        (val + push_bit (7 * unat i) (ucast (c AND 0x7F)) + groups cs (unat (i + 1)))"
    by (rule Cons.IH[OF p1 p2 p3])
  also have "\<dots> = uleb128_loop data (i + of_nat (length (c # cs))) (val + groups (c # cs) (unat i))"
    by (simp add: s add.assoc)
  finally show ?case .
qed

lemma uleb128_run:
  assumes "list_all (\<lambda>c. c AND 0x80 = 0x80) cs" "length cs \<le> 5"
    and "starts_with data (cs @ [d])"
    and "length cs < 5 \<longrightarrow> d AND 0x80 \<noteq> 0x80"
  shows "uleb128 data = Returned (groups cs 0 + push_bit (7 * length cs) (ucast d),
                                  of_nat (length cs) + 1)"
proof -
  have ix: "\<And>j. j < length cs \<Longrightarrow> index data (unat (0::uint32) + j) = Some (cs ! j)"
    using starts_with_index[OF assms(3)] by (simp add: nth_append)
  have ixd: "index data (length cs) = Some d"
    using starts_with_index[OF assms(3), of "length cs"] by simp
  have l: "uleb128_loop data 0 0 = uleb128_loop data (of_nat (length cs)) (groups cs 0)"
    using loop_run[OF assms(1) _ ix, of 0] assms(2) by simp
  have u: "unat (of_nat (length cs) :: uint32) = length cs"
    using assms(2) by (simp add: unat_of_nat)
  have u7: "unat (7 * of_nat (length cs) :: uint32) = 7 * length cs"
    using assms(2) u by (simp add: unat_word_ariths)
  have e: "uleb128_loop data (of_nat (length cs)) (groups cs 0)
            = Returned (of_nat (length cs), groups cs 0)"
  proof (cases "length cs < 5")
    case True
    then have "(of_nat (length cs) :: uint32) < 5"
      using u by (simp add: word_less_nat_alt)
    then show ?thesis
      using ixd u assms(4) True
      by (simp add: uleb128_loop.simps[of data "of_nat (length cs)"])
  next
    case False
    then have "\<not> (of_nat (length cs) :: uint32) < 5"
      using u by (simp add: word_less_nat_alt)
    then show ?thesis
      by (simp add: uleb128_loop.simps[of data "of_nat (length cs)"])
  qed
  show ?thesis
    unfolding uleb128_def l e using ixd u u7 by simp
qed

lemma uleb128_run5:
  assumes "list_all (\<lambda>c. c AND 0x80 = 0x80) cs" "length cs = 5"
    and "starts_with data (cs @ [d])"
  shows "uleb128 data = Returned (groups cs 0, 6)"
proof -
  have "push_bit (7 * length cs) (ucast d :: uint32) = 0"
    unfolding assms(2) by (rule bit_eqI) (simp add: bit_simps)
  with uleb128_run[OF assms(1) _ assms(3)] assms(2) show ?thesis by simp
qed

lemma uleb128_run_out:
  assumes "list_all (\<lambda>c. c AND 0x80 = 0x80) cs" "length cs \<le> 5"
    and "starts_with data cs" "len data = length cs"
  shows "uleb128 data = Panicked"
proof -
  have ix: "\<And>j. j < length cs \<Longrightarrow> index data (unat (0::uint32) + j) = Some (cs ! j)"
    using starts_with_index[OF assms(3)] by simp
  have ixd: "index data (length cs) = None"
    using assms(4) by (simp add: index_def)
  have l: "uleb128_loop data 0 0 = uleb128_loop data (of_nat (length cs)) (groups cs 0)"
    using loop_run[OF assms(1) _ ix, of 0] assms(2) by simp
  have u: "unat (of_nat (length cs) :: uint32) = length cs"
    using assms(2) by (simp add: unat_of_nat)
  show ?thesis
  proof (cases "length cs < 5")
    case True
    then have "(of_nat (length cs) :: uint32) < 5"
      using u by (simp add: word_less_nat_alt)
    then have "uleb128_loop data (of_nat (length cs)) (groups cs 0) = Panicked"
      using ixd u by (simp add: uleb128_loop.simps[of data "of_nat (length cs)"])
    then show ?thesis unfolding uleb128_def l by simp
  next
    case False
    then have "\<not> (of_nat (length cs) :: uint32) < 5"
      using u by (simp add: word_less_nat_alt)
    then have "uleb128_loop data (of_nat (length cs)) (groups cs 0)
                 = Returned (of_nat (length cs), groups cs 0)"
      by (simp add: uleb128_loop.simps[of data "of_nat (length cs)"])
    then show ?thesis unfolding uleb128_def l using ixd u by simp
  qed
qed

text \<open>
  C6, as stated, fails. On five continuation bytes the decoder reads a sixth byte, adds
  nothing for it (the shift is 35), and returns the count 6; the codec returns a nil
  error.
\<close>

theorem uleb128_six_bytes_no_error:
  "uleb128 (bytes [0x80, 0x80, 0x80, 0x80, 0x80, 0x01]) = Returned (0, 6)
   \<and> unpackUleb128 (bytes [0x80, 0x80, 0x80, 0x80, 0x80, 0x01]) (U64 0) = Returned (U64 0, 6, None)"
  by (simp add: unpackUleb128_def uleb128_eval)

text \<open>
  C6, amended. The decoder has no error result, and the codec built on it always
  returns a nil error. The decoder takes the bytes up to and including the first one
  whose top bit is clear, if that byte is among the first five: \<open>k + 1\<close> bytes when
  it is at position \<open>k < 5\<close>, so at most five, and the value is the sum of the groups
  of seven bits, the group of byte \<open>j\<close> shifted by \<open>7 * j\<close>. When the first five
  bytes all have the top bit set, a sixth byte is read, which adds nothing, and the
  count is 6. When the slice ends before the last byte read, the decoder panics.
\<close>

theorem uleb128_no_error_exact_byte_count:
  "(unpackUleb128 data val = Returned (val', m, e) \<longrightarrow> e = None)
   \<and> (list_all (\<lambda>c. c AND 0x80 = 0x80) cs \<and> length cs < 5 \<and> d AND 0x80 \<noteq> 0x80
        \<and> starts_with data (cs @ [d])
      \<longrightarrow> (\<exists>n. uleb128 data = Returned (groups cs 0 + push_bit (7 * length cs) (ucast d), n)
               \<and> unat n = length cs + 1 \<and> unat n \<le> 5))
   \<and> (list_all (\<lambda>c. c AND 0x80 = 0x80) cs \<and> length cs = 5 \<and> starts_with data (cs @ [d])
      \<longrightarrow> uleb128 data = Returned (groups cs 0, 6))
   \<and> (list_all (\<lambda>c. c AND 0x80 = 0x80) cs \<and> length cs \<le> 5 \<and> starts_with data cs
        \<and> len data = length cs
      \<longrightarrow> uleb128 data = Panicked)"
proof -
  have a: "unpackUleb128 data val = Returned (val', m, e) \<longrightarrow> e = None"
    by (auto simp: unpackUleb128_def split: outcome.splits option.splits)
  have b: "\<exists>n. uleb128 data = Returned (groups cs 0 + push_bit (7 * length cs) (ucast d), n)
               \<and> unat n = length cs + 1 \<and> unat n \<le> 5"
    if "list_all (\<lambda>c. c AND 0x80 = 0x80) cs" "length cs < 5" "d AND 0x80 \<noteq> 0x80"
       "starts_with data (cs @ [d])"
  proof -
    have "uleb128 data = Returned (groups cs 0 + push_bit (7 * length cs) (ucast d),
                                   of_nat (length cs) + 1)"
      using uleb128_run[OF that(1) _ that(4)] that(2,3) by simp
    moreover have "unat (of_nat (length cs) + 1 :: uint32) = length cs + 1"
      using that(2) by (simp add: unat_word_ariths unat_of_nat)
    ultimately show ?thesis using that(2) by simp
  qed
  have c: "uleb128 data = Returned (groups cs 0, 6)"
    if "list_all (\<lambda>c. c AND 0x80 = 0x80) cs" "length cs = 5" "starts_with data (cs @ [d])"
    using that by (rule uleb128_run5)
  have d: "uleb128 data = Panicked"
    if "list_all (\<lambda>c. c AND 0x80 = 0x80) cs" "length cs \<le> 5" "starts_with data cs"
       "len data = length cs"
    using that by (rule uleb128_run_out)
  from a b c d show ?thesis by blast
qed

theorem uleb128_no_error_exact_byte_count_witness:
  "unpackUleb128 (bytes [0x80, 0x7F]) (U64 0) = Returned (U64 16256, 2, None)
   \<and> list_all (\<lambda>c. c AND 0x80 = 0x80) [0x80 :: byte] \<and> length [0x80 :: byte] < 5
   \<and> (0x7F :: byte) AND 0x80 \<noteq> 0x80 \<and> starts_with (bytes [0x80, 0x7F]) ([0x80] @ [0x7F])
   \<and> uleb128 (bytes [0x80, 0x7F]) = Returned (16256, 2)
   \<and> starts_with (bytes [0xFF, 0xFF, 0xFF, 0xFF, 0xFF, 0x01])
        ([0xFF, 0xFF, 0xFF, 0xFF, 0xFF] @ [0x01])
   \<and> uleb128 (bytes [0xFF, 0xFF, 0xFF, 0xFF, 0xFF, 0x01]) = Returned (0xFFFFFFFF, 6)
   \<and> starts_with (bytes [0x80, 0x80]) [0x80, 0x80] \<and> len (bytes [0x80, 0x80]) = 2
   \<and> uleb128 (bytes [0x80, 0x80]) = Panicked"
proof -
  have h1: "unpackUleb128 (bytes [0x80, 0x7F]) (U64 0) = Returned (U64 16256, 2, None)"
    by (simp add: unpackUleb128_def uleb128_eval)
  have h2: "list_all (\<lambda>c. c AND 0x80 = 0x80) [0x80 :: byte]" "length [0x80 :: byte] < 5"
    "(0x7F :: byte) AND 0x80 \<noteq> 0x80" "starts_with (bytes [0x80, 0x7F]) ([0x80] @ [0x7F])"
    by (simp_all add: starts_with_def bytes_def)
  have h3: "list_all (\<lambda>c. c AND 0x80 = 0x80) [0xFF, 0xFF, 0xFF, 0xFF, 0xFF :: byte]"
    "length [0xFF, 0xFF, 0xFF, 0xFF, 0xFF :: byte] = 5"
    "starts_with (bytes [0xFF, 0xFF, 0xFF, 0xFF, 0xFF, 0x01])
        ([0xFF, 0xFF, 0xFF, 0xFF, 0xFF] @ [0x01])"
    by (simp_all add: starts_with_def bytes_def)
  have h4: "list_all (\<lambda>c. c AND 0x80 = 0x80) [0x80, 0x80 :: byte]"
    "length [0x80, 0x80 :: byte] \<le> 5"
    "starts_with (bytes [0x80, 0x80]) [0x80, 0x80]" "len (bytes [0x80, 0x80]) = 2"
    by (simp_all add: starts_with_def bytes_def)
  have g2: "groups [0x80 :: byte] 0 + push_bit (7 * length [0x80 :: byte]) (ucast (0x7F :: byte))
              = (16256 :: uint32)"
    by simp
  have g3: "groups [0xFF, 0xFF, 0xFF, 0xFF, 0xFF :: byte] 0 = (0xFFFFFFFF :: uint32)"
    by simp
  note t2 = uleb128_no_error_exact_byte_count
              [where data="bytes [0x80, 0x7F]" and val="U64 0" and val'="U64 16256" and m=2
                 and e=None and cs="[0x80]" and d="0x7F"]
  note t3 = uleb128_no_error_exact_byte_count
              [where data="bytes [0xFF, 0xFF, 0xFF, 0xFF, 0xFF, 0x01]"
                 and cs="[0xFF, 0xFF, 0xFF, 0xFF, 0xFF]" and d="0x01"]
  note t4 = uleb128_no_error_exact_byte_count
              [where data="bytes [0x80, 0x80]" and cs="[0x80, 0x80]"]
  have r2: "uleb128 (bytes [0x80, 0x7F]) = Returned (16256, 2)"
  proof -
    from t2 h2 obtain n where
      u: "uleb128 (bytes [0x80, 0x7F])
         = Returned (groups [0x80] 0 + push_bit (7 * length [0x80 :: byte]) (ucast (0x7F :: byte)), n)"
      and n: "unat n = length [0x80 :: byte] + 1"
      by blast
    from n have "n = 2" by (simp add: word_unat_eq_iff)
    with u show ?thesis by (simp only: g2)
  qed
  have r3: "uleb128 (bytes [0xFF, 0xFF, 0xFF, 0xFF, 0xFF, 0x01]) = Returned (0xFFFFFFFF, 6)"
  proof -
    from t3 h3 have "uleb128 (bytes [0xFF, 0xFF, 0xFF, 0xFF, 0xFF, 0x01])
        = Returned (groups [0xFF, 0xFF, 0xFF, 0xFF, 0xFF] 0, 6)"
      by blast
    then show ?thesis by (simp only: g3)
  qed
  have r4: "uleb128 (bytes [0x80, 0x80]) = Panicked"
    using t4 h4 by simp
  from h1 h2 h3 h4 r2 r3 r4 show ?thesis by simp
qed

section \<open>Properties of Unpack\<close>

lemma Unpack_fields_error:
  "Unpack_fields packs buf tags st i offset = Returned (st', n, err) \<Longrightarrow>
   err = (if \<exists>t\<in>set tags. t \<noteq> ''-'' \<and> packs t = None
          then Some ''Not implemented type '' else None)"
proof (induction tags arbitrary: st i offset)
  case Nil
  then show ?case by simp
next
  case (Cons tag tags)
  show ?case
  proof (cases "tag = ''-''")
    case True
    with Cons.prems have "Unpack_fields packs buf tags st (Suc i) offset = Returned (st', n, err)"
      by simp
    from Cons.IH[OF this] True show ?thesis by simp
  next
    case False
    show ?thesis
    proof (cases "packs tag")
      case None
      with False Cons.prems show ?thesis by auto
    next
      case (Some p)
      with False Cons.prems obtain d st1 l e1 where
        "Unpack_fields packs buf tags st1 (Suc i) (offset + l) = Returned (st', n, err)"
        by (auto split: option.splits outcome.splits)
      from Cons.IH[OF this] Some show ?thesis by auto
    qed
  qed
qed

lemma Unpack_fields_append:
  "Unpack_fields packs buf (ts1 @ ts2) st i off =
     (case Unpack_fields packs buf ts1 st i off of
        Panicked \<Rightarrow> Panicked
      | Returned (st1, off1, e) \<Rightarrow>
          (case e of
             None \<Rightarrow> Unpack_fields packs buf ts2 st1 (i + length ts1) off1
           | Some x \<Rightarrow> Returned (st1, off1, Some x)))"
  by (induction ts1 arbitrary: st i off) (auto split: option.splits outcome.splits)

lemma Unpack_fields_first_unregistered:
  "Unpack_fields packs buf tags st i off = Returned (st', n, Some e) \<Longrightarrow>
   e = ''Not implemented type '' \<and>
   (\<exists>k<length tags. tags ! k \<noteq> ''-'' \<and> packs (tags ! k) = None
      \<and> (\<forall>j<k. tags ! j = ''-'' \<or> packs (tags ! j) \<noteq> None)
      \<and> Unpack_fields packs buf (take k tags) st i off = Returned (st', n, None))"
proof (induction tags arbitrary: st i off)
  case Nil
  then show ?case by simp
next
  case (Cons tag tags)
  show ?case
  proof (cases "tag = ''-''")
    case True
    with Cons.prems have "Unpack_fields packs buf tags st (Suc i) off = Returned (st', n, Some e)"
      by simp
    from Cons.IH[OF this] obtain k where e: "e = ''Not implemented type ''" and
      k: "k < length tags" "tags ! k \<noteq> ''-''" "packs (tags ! k) = None"
         "\<forall>j<k. tags ! j = ''-'' \<or> packs (tags ! j) \<noteq> None"
         "Unpack_fields packs buf (take k tags) st (Suc i) off = Returned (st', n, None)"
      by blast
    have "\<forall>j<Suc k. (tag # tags) ! j = ''-'' \<or> packs ((tag # tags) ! j) \<noteq> None"
      using k(4) True by (auto simp: nth_Cons split: nat.splits)
    with k True have "Suc k < length (tag # tags) \<and> (tag # tags) ! Suc k \<noteq> ''-''
        \<and> packs ((tag # tags) ! Suc k) = None
        \<and> (\<forall>j<Suc k. (tag # tags) ! j = ''-'' \<or> packs ((tag # tags) ! j) \<noteq> None)
        \<and> Unpack_fields packs buf (take (Suc k) (tag # tags)) st i off = Returned (st', n, None)"
      by simp
    with e show ?thesis by blast
  next
    case False
    note nd = this
    show ?thesis
    proof (cases "packs tag")
      case None
      with nd Cons.prems have "e = ''Not implemented type ''" "st' = st" "n = off" by auto
      with nd None have "e = ''Not implemented type '' \<and> 0 < length (tag # tags) \<and> (tag # tags) ! 0 \<noteq> ''-''
        \<and> packs ((tag # tags) ! 0) = None
        \<and> (\<forall>j<0. (tag # tags) ! j = ''-'' \<or> packs ((tag # tags) ! j) \<noteq> None)
        \<and> Unpack_fields packs buf (take 0 (tag # tags)) st i off = Returned (st', n, None)"
        by simp
      then show ?thesis by blast
    next
      case (Some p)
      with nd Cons.prems obtain d st1 l e1 where
        s: "slice_from buf off = Some d" and
        c: "p d i st = Returned (st1, l, e1)" and
        r: "Unpack_fields packs buf tags st1 (Suc i) (off + l) = Returned (st', n, Some e)"
        by (auto split: option.splits outcome.splits)
      from Cons.IH[OF r] obtain k where e: "e = ''Not implemented type ''" and
        k: "k < length tags" "tags ! k \<noteq> ''-''" "packs (tags ! k) = None"
           "\<forall>j<k. tags ! j = ''-'' \<or> packs (tags ! j) \<noteq> None"
           "Unpack_fields packs buf (take k tags) st1 (Suc i) (off + l) = Returned (st', n, None)"
        by blast
      have "\<forall>j<Suc k. (tag # tags) ! j = ''-'' \<or> packs ((tag # tags) ! j) \<noteq> None"
        using k(4) Some by (auto simp: nth_Cons split: nat.splits)
      with k nd Some s c have "Suc k < length (tag # tags) \<and> (tag # tags) ! Suc k \<noteq> ''-''
          \<and> packs ((tag # tags) ! Suc k) = None
          \<and> (\<forall>j<Suc k. (tag # tags) ! j = ''-'' \<or> packs ((tag # tags) ! j) \<noteq> None)
          \<and> Unpack_fields packs buf (take (Suc k) (tag # tags)) st i off = Returned (st', n, None)"
        by simp
      with e show ?thesis by blast
    qed
  qed
qed

text \<open>
  C7, as stated, fails. The \<open>byte\<close> codec on a field that is not an array fails with
  \<open>Invalid field\<close>; \<open>Unpack\<close> drops that error, goes on to the next field and
  returns the record with a nil error.
\<close>

theorem Unpack_drops_codec_error:
  "on_field unpackByteArray (bytes [1, 0, 0, 0]) 0 [U32 0, U32 0]
     = Returned ([U32 0, U32 0], 0, Some ''Invalid field'')
   \<and> Unpack packs0 (bytes [1, 0, 0, 0]) [''byte'', ''uint''] [U32 0, U32 0]
     = Returned ([U32 0, U32 1], 4, None)"
  by code_simp

text \<open>
  C7, amended. \<open>Unpack\<close> drops the error of every codec it calls and goes on with
  the next field: when the fields so far were unpacked with a nil error and the codec
  of the next field returns, with an error or without, the result for the fields up to
  and including that one is the struct as the codec left it, the offset advanced by the
  length the codec reported, and a nil error; only a panic of the codec, or of taking
  \<open>b[offset:]\<close>, ends \<open>Unpack\<close> early, as a panic. A field tagged \<open>-\<close> changes
  nothing. At the first field whose tag is neither \<open>-\<close> nor registered \<open>Unpack\<close>
  stops and returns \<open>Not implemented type\<close>, with the offset reached and the struct
  as filled before that field, whatever fields follow; this is the only error
  \<open>Unpack\<close> returns, and it returns it exactly when such a field exists.
\<close>

theorem Unpack_continues_until_unregistered_tag:
  "(Unpack packs buf tags st = Returned (st1, n1, None) \<and> t \<noteq> ''-'' \<and> packs t = Some p
      \<and> slice_from buf n1 = Some d \<and> p d (length tags) st1 = Returned (st2, m, e)
     \<longrightarrow> Unpack packs buf (tags @ [t]) st = Returned (st2, n1 + m, None))
   \<and> (Unpack packs buf tags st = Returned (st1, n1, None) \<and> t \<noteq> ''-'' \<and> packs t = Some p
      \<and> (slice_from buf n1 = None \<or> (slice_from buf n1 = Some d \<and> p d (length tags) st1 = Panicked))
     \<longrightarrow> Unpack packs buf (tags @ t # rest) st = Panicked)
   \<and> Unpack packs buf (tags @ [''-'']) st = Unpack packs buf tags st
   \<and> (Unpack packs buf tags st = Returned (st1, n1, None) \<and> t \<noteq> ''-'' \<and> packs t = None
     \<longrightarrow> Unpack packs buf (tags @ t # rest) st = Returned (st1, n1, Some ''Not implemented type ''))
   \<and> (Unpack packs buf tags st = Returned (st', n, Some x)
     \<longrightarrow> x = ''Not implemented type ''
         \<and> (\<exists>k<length tags. tags ! k \<noteq> ''-'' \<and> packs (tags ! k) = None
              \<and> (\<forall>j<k. tags ! j = ''-'' \<or> packs (tags ! j) \<noteq> None)
              \<and> Unpack packs buf (take k tags) st = Returned (st', n, None)))
   \<and> (Unpack packs buf tags st = Returned (st', n, err)
     \<longrightarrow> err = (if \<exists>t\<in>set tags. t \<noteq> ''-'' \<and> packs t = None
                 then Some ''Not implemented type '' else None))"
proof -
  have a: "Unpack packs buf (tags @ [t]) st = Returned (st2, n1 + m, None)"
    if "Unpack packs buf tags st = Returned (st1, n1, None)" "t \<noteq> ''-''" "packs t = Some p"
       "slice_from buf n1 = Some d" "p d (length tags) st1 = Returned (st2, m, e)"
    using that by (simp add: Unpack_def Unpack_fields_append)
  have b: "Unpack packs buf (tags @ t # rest) st = Panicked"
    if "Unpack packs buf tags st = Returned (st1, n1, None)" "t \<noteq> ''-''" "packs t = Some p"
       "slice_from buf n1 = None \<or> (slice_from buf n1 = Some d \<and> p d (length tags) st1 = Panicked)"
    using that by (auto simp: Unpack_def Unpack_fields_append)
  have c: "Unpack packs buf (tags @ [''-'']) st = Unpack packs buf tags st"
    by (auto simp: Unpack_def Unpack_fields_append split: outcome.splits option.splits)
  have d: "Unpack packs buf (tags @ t # rest) st = Returned (st1, n1, Some ''Not implemented type '')"
    if "Unpack packs buf tags st = Returned (st1, n1, None)" "t \<noteq> ''-''" "packs t = None"
    using that by (simp add: Unpack_def Unpack_fields_append)
  have e: "x = ''Not implemented type ''
         \<and> (\<exists>k<length tags. tags ! k \<noteq> ''-'' \<and> packs (tags ! k) = None
              \<and> (\<forall>j<k. tags ! j = ''-'' \<or> packs (tags ! j) \<noteq> None)
              \<and> Unpack packs buf (take k tags) st = Returned (st', n, None))"
    if "Unpack packs buf tags st = Returned (st', n, Some x)"
    using Unpack_fields_first_unregistered[OF that[unfolded Unpack_def]]
    by (simp add: Unpack_def)
  have f: "err = (if \<exists>t\<in>set tags. t \<noteq> ''-'' \<and> packs t = None
                 then Some ''Not implemented type '' else None)"
    if "Unpack packs buf tags st = Returned (st', n, err)"
    using that unfolding Unpack_def by (rule Unpack_fields_error)
  from a b c d e f show ?thesis by blast
qed

theorem Unpack_continues_until_unregistered_tag_witness:
  "Unpack packs0 (bytes [1, 0, 0, 0]) [] [U32 0, U32 0, U32 0, U32 0]
     = Returned ([U32 0, U32 0, U32 0, U32 0], 0, None)
   \<and> packs0 ''byte'' = Some (on_field unpackByteArray)
   \<and> slice_from (bytes [1, 0, 0, 0]) 0 = Some (bytes [1, 0, 0, 0])
   \<and> on_field unpackByteArray (bytes [1, 0, 0, 0]) (length ([] :: string list))
         [U32 0, U32 0, U32 0, U32 0]
       = Returned ([U32 0, U32 0, U32 0, U32 0], 0, Some ''Invalid field'')
   \<and> Unpack packs0 (bytes [1, 0, 0, 0]) ([] @ [''byte'']) [U32 0, U32 0, U32 0, U32 0]
       = Returned ([U32 0, U32 0, U32 0, U32 0], 0 + 0, None)
   \<and> packs0 ''uint'' = Some (on_field unpackUint)
   \<and> on_field unpackUint (bytes [1, 0, 0, 0]) (length [''byte''])
         [U32 0, U32 0, U32 0, U32 0]
       = Returned ([U32 0, U32 1, U32 0, U32 0], 4, None)
   \<and> Unpack packs0 (bytes [1, 0, 0, 0]) ([''byte''] @ [''uint'']) [U32 0, U32 0, U32 0, U32 0]
       = Returned ([U32 0, U32 1, U32 0, U32 0], 0 + 4, None)
   \<and> packs0 ''ubyte'' = None
   \<and> Unpack packs0 (bytes [1, 0, 0, 0]) ([''byte'', ''uint''] @ ''ubyte'' # [''uint''])
         [U32 0, U32 0, U32 0, U32 0]
       = Returned ([U32 0, U32 1, U32 0, U32 0], 4, Some ''Not implemented type '')"
proof -
  let ?buf = "bytes [1, 0, 0, 0]"
  let ?st = "[U32 0, U32 0, U32 0, U32 0]"
  let ?st2 = "[U32 0, U32 1, U32 0, U32 0]"
  have h0: "Unpack packs0 ?buf [] ?st = Returned (?st, 0, None)"
    by (simp add: Unpack_def)
  have l: "packs0 ''byte'' = Some (on_field unpackByteArray)"
    "packs0 ''uint'' = Some (on_field unpackUint)" "packs0 ''ubyte'' = None"
    by (simp_all add: packs0_def RegisterPack_def)
  have nd: "''byte'' \<noteq> ''-''" "''uint'' \<noteq> ''-''" "''ubyte'' \<noteq> ''-''"
    by simp_all
  have s: "slice_from ?buf 0 = Some ?buf"
    by (simp add: slice_from_def bytes_def)
  have c1: "on_field unpackByteArray ?buf (length ([] :: string list)) ?st
              = Returned (?st, 0, Some ''Invalid field'')"
    by (simp add: on_field_def unpackByteArray_def)
  have c2: "on_field unpackUint ?buf (length [''byte'']) ?st = Returned (?st2, 4, None)"
    by (simp add: on_field_def unpackUint_def slice_range_def cap_def bytes_def Uint32_def
          index_def)
  have r1: "Unpack packs0 ?buf ([] @ [''byte'']) ?st = Returned (?st, 0 + 0, None)"
    using Unpack_continues_until_unregistered_tag
            [where packs=packs0 and buf="?buf" and tags="[]" and st="?st" and ?st1.0="?st"
               and ?n1.0=0 and t="''byte''" and p="on_field unpackByteArray" and d="?buf"
               and ?st2.0="?st" and m=0 and e="Some ''Invalid field''"]
          h0 l(1) nd(1) s c1
    by blast
  then have r1': "Unpack packs0 ?buf [''byte''] ?st = Returned (?st, 0, None)"
    by simp
  have r2: "Unpack packs0 ?buf ([''byte''] @ [''uint'']) ?st = Returned (?st2, 0 + 4, None)"
    using Unpack_continues_until_unregistered_tag
            [where packs=packs0 and buf="?buf" and tags="[''byte'']" and st="?st"
               and ?st1.0="?st" and ?n1.0=0 and t="''uint''" and p="on_field unpackUint"
               and d="?buf" and ?st2.0="?st2" and m=4 and e=None]
          r1' l(2) nd(2) s c2
    by blast
  then have r2': "Unpack packs0 ?buf [''byte'', ''uint''] ?st = Returned (?st2, 4, None)"
    by simp
  have r3: "Unpack packs0 ?buf ([''byte'', ''uint''] @ ''ubyte'' # [''uint'']) ?st
              = Returned (?st2, 4, Some ''Not implemented type '')"
    using Unpack_continues_until_unregistered_tag
            [where packs=packs0 and buf="?buf" and tags="[''byte'', ''uint'']" and st="?st"
               and ?st1.0="?st2" and ?n1.0=4 and t="''ubyte''" and rest="[''uint'']"]
          r2' l(3) nd(3)
    by blast
  from h0 l s c1 r1 c2 r2 r3 show ?thesis by simp
qed

subsection \<open>The fields Unpack leaves alone\<close>

lemma Unpack_fields_frame_at:
  "Unpack_fields packs buf tags st k offset = Returned (st', n, err) \<Longrightarrow>
   keep_to_field_from packs tags k \<Longrightarrow>
   length st' = length st \<and>
   (\<forall>j. j < k \<or> k + length tags \<le> j \<or> tags ! (j - k) = ''-'' \<or> packs (tags ! (j - k)) = None
        \<longrightarrow> st' ! j = st ! j)"
proof (induction tags arbitrary: st k offset)
  case Nil
  then show ?case by simp
next
  case (Cons tag tags)
  have wf: "keep_to_field_from packs tags (Suc k)"
    using Cons.prems(2) by simp
  show ?case
  proof (cases "tag = ''-''")
    case True
    with Cons.prems have r: "Unpack_fields packs buf tags st (Suc k) offset = Returned (st', n, err)"
      by simp
    note ih = Cons.IH[OF r wf]
    show ?thesis
    proof (intro conjI allI impI)
      show "length st' = length st" using ih by simp
    next
      fix j
      assume a: "j < k \<or> k + length (tag # tags) \<le> j \<or> (tag # tags) ! (j - k) = ''-''
                 \<or> packs ((tag # tags) ! (j - k)) = None"
      show "st' ! j = st ! j"
      proof (cases "j \<le> k")
        case True
        then have "j < Suc k" by simp
        with ih show ?thesis by blast
      next
        case False
        then have "(tag # tags) ! (j - k) = tags ! (j - Suc k)"
          by (simp add: nth_Cons')
        with a False have "j < Suc k \<or> Suc k + length tags \<le> j \<or> tags ! (j - Suc k) = ''-''
                 \<or> packs (tags ! (j - Suc k)) = None" by auto
        with ih show ?thesis by blast
      qed
    qed
  next
    case False
    note nd = this
    show ?thesis
    proof (cases "packs tag")
      case None
      with nd Cons.prems show ?thesis by auto
    next
      case (Some p)
      with nd Cons.prems(1) obtain d st1 l e1 where
        c: "p d k st = Returned (st1, l, e1)" and
        r: "Unpack_fields packs buf tags st1 (Suc k) (offset + l) = Returned (st', n, err)"
        by (auto split: option.splits outcome.splits)
      have "writes_field p k" using Cons.prems(2) nd Some by simp
      with c obtain v where st1: "st1 = st[k := v]"
        unfolding writes_field_def by blast
      note ih = Cons.IH[OF r wf]
      show ?thesis
      proof (intro conjI allI impI)
        show "length st' = length st" using ih st1 by simp
      next
        fix j
        assume a: "j < k \<or> k + length (tag # tags) \<le> j \<or> (tag # tags) ! (j - k) = ''-''
                 \<or> packs ((tag # tags) ! (j - k)) = None"
        have jk: "j \<noteq> k"
        proof
          assume "j = k"
          with a nd Some show False by simp
        qed
        show "st' ! j = st ! j"
        proof (cases "j < k")
          case True
          then have "j < Suc k" by simp
          with ih have "st' ! j = st1 ! j" by blast
          with st1 jk show ?thesis by simp
        next
          case False
          with jk have gt: "k < j" by simp
          then have "(tag # tags) ! (j - k) = tags ! (j - Suc k)"
            by (simp add: nth_Cons')
          with a gt have "j < Suc k \<or> Suc k + length tags \<le> j \<or> tags ! (j - Suc k) = ''-''
                 \<or> packs (tags ! (j - Suc k)) = None" by auto
          with ih have "st' ! j = st1 ! j" by blast
          with st1 jk show ?thesis by simp
        qed
      qed
    qed
  qed
qed

lemma Unpack_frame:
  assumes "codecs_keep_to_field packs tags"
    and "Unpack packs buf tags st = Returned (st', n, err)"
  shows "length st' = length st"
    and "length tags \<le> j \<or> tags ! j = ''-'' \<or> packs (tags ! j) = None \<Longrightarrow> st' ! j = st ! j"
proof -
  from Unpack_fields_frame_at[OF assms(2)[unfolded Unpack_def] assms(1)[unfolded codecs_keep_to_field_def]]
  have l: "length st' = length st"
    and f: "\<And>j. 0 + length tags \<le> j \<or> tags ! (j - 0) = ''-'' \<or> packs (tags ! (j - 0)) = None
        \<Longrightarrow> st' ! j = st ! j"
    by blast+
  show "length st' = length st" by (rule l)
  show "length tags \<le> j \<or> tags ! j = ''-'' \<or> packs (tags ! j) = None \<Longrightarrow> st' ! j = st ! j"
    using f[of j] by simp
qed

lemma on_field_writes_only_val: "writes_only_val (on_field f)"
  by (auto simp: writes_only_val_def on_field_def split: outcome.splits)

lemma writes_only_val_field: "writes_only_val p \<Longrightarrow> writes_field p i"
  unfolding writes_only_val_def writes_field_def by blast

lemma writes_only_val_keep:
  assumes "\<forall>p\<in>ran packs. writes_only_val p"
  shows "keep_to_field_from packs tags k"
proof -
  have wf: "writes_field p j" if "packs tag = Some p" for p j tag
  proof -
    from that have "p \<in> ran packs" by (auto simp: ran_def)
    with assms show ?thesis using writes_only_val_field by blast
  qed
  have "\<forall>k. keep_to_field_from packs tags k"
  proof (induction tags)
    case Nil
    then show ?case by simp
  next
    case (Cons tag tags)
    show ?case
    proof (cases "packs tag")
      case None
      with Cons show ?thesis by simp
    next
      case (Some p)
      with Cons wf[OF Some] show ?thesis by simp
    qed
  qed
  then show ?thesis by blast
qed

lemma on_field_writes_field: "writes_field (on_field f) i"
  by (rule writes_only_val_field) (rule on_field_writes_only_val)

lemma staticfields_writes_field:
  "writes_field (staticfields packs dex) (Suc (Suc (Suc (Suc 0))))"
proof -
  have "\<exists>v. st' = st[Suc (Suc (Suc (Suc 0))) := v]"
    if "staticfields packs dex data (Suc (Suc (Suc (Suc 0)))) st = Returned (st', n, e)"
    for data st st' n e
  proof -
    from that obtain efs where "st' = st[4 := EncodedFieldsV efs]"
      by (auto simp: staticfields_def Let_def split: outcome.splits)
    then show ?thesis by (auto simp: eval_nat_numeral)
  qed
  then show ?thesis unfolding writes_field_def by blast
qed

lemma instancefields_writes_field:
  "writes_field (instancefields packs dex) (Suc (Suc (Suc (Suc (Suc 0)))))"
proof -
  have "\<exists>v. st' = st[Suc (Suc (Suc (Suc (Suc 0)))) := v]"
    if "instancefields packs dex data (Suc (Suc (Suc (Suc (Suc 0))))) st = Returned (st', n, e)"
    for data st st' n e
  proof -
    from that obtain efs where "st' = st[5 := EncodedFieldsV efs]"
      by (auto simp: instancefields_def Let_def split: outcome.splits)
    then show ?thesis by (auto simp: eval_nat_numeral)
  qed
  then show ?thesis unfolding writes_field_def by blast
qed

lemma directmethods_writes_field:
  "writes_field (directmethods packs dex) (Suc (Suc (Suc (Suc (Suc (Suc 0))))))"
proof -
  have "\<exists>v. st' = st[Suc (Suc (Suc (Suc (Suc (Suc 0))))) := v]"
    if "directmethods packs dex data (Suc (Suc (Suc (Suc (Suc (Suc 0)))))) st = Returned (st', n, e)"
    for data st st' n e
  proof -
    from that obtain ems where "st' = st[6 := EncodedMethodsV ems]"
      by (auto simp: directmethods_def Let_def split: outcome.splits)
    then show ?thesis by (auto simp: eval_nat_numeral)
  qed
  then show ?thesis unfolding writes_field_def by blast
qed

lemma virtualmethods_writes_field:
  "writes_field (virtualmethods packs dex) (Suc (Suc (Suc (Suc (Suc (Suc (Suc 0)))))))"
proof -
  have "\<exists>v. st' = st[Suc (Suc (Suc (Suc (Suc (Suc (Suc 0)))))) := v]"
    if "virtualmethods packs dex data (Suc (Suc (Suc (Suc (Suc (Suc (Suc 0))))))) st = Returned (st', n, e)"
    for data st st' n e
  proof -
    from that obtain ems where "st' = st[7 := EncodedMethodsV ems]"
      by (auto simp: virtualmethods_def Let_def split: outcome.splits)
    then show ?thesis by (auto simp: eval_nat_numeral)
  qed
  then show ?thesis unfolding writes_field_def by blast
qed

lemma classdata_writes_field:
  "writes_field (classdata packs buf) (Suc (Suc (Suc (Suc (Suc (Suc (Suc 0)))))))"
proof -
  have "\<exists>v. st' = st[Suc (Suc (Suc (Suc (Suc (Suc (Suc 0)))))) := v]"
    if "classdata packs buf data (Suc (Suc (Suc (Suc (Suc (Suc (Suc 0))))))) st = Returned (st', n, e)"
    for data st st' n e
  proof -
    from that consider "st' = st" | cd where "st' = st[7 := ClassDataItemV cd]"
      by (auto simp: classdata_def Let_def split: outcome.splits option.splits if_splits)
    then show ?thesis
    proof cases
      case 1
      then have "st' = st[Suc (Suc (Suc (Suc (Suc (Suc (Suc 0)))))) := st ! 7]"
        by (simp add: eval_nat_numeral)
      then show ?thesis by blast
    next
      case 2
      then show ?thesis by (auto simp: eval_nat_numeral)
    qed
  qed
  then show ?thesis unfolding writes_field_def by blast
qed

lemma staticvalues_writes_field:
  "writes_field (staticvalues packs buf dex) (Suc (Suc (Suc (Suc (Suc (Suc (Suc (Suc 0))))))))"
proof -
  have "\<exists>v. st' = st[Suc (Suc (Suc (Suc (Suc (Suc (Suc (Suc 0))))))) := v]"
    if "staticvalues packs buf dex data (Suc (Suc (Suc (Suc (Suc (Suc (Suc (Suc 0)))))))) st
          = Returned (st', n, e)"
    for data st st' n e
  proof -
    from that consider "st' = st" | evs where "st' = st[8 := EncodedValuesV evs]"
      by (auto simp: staticvalues_def Let_def split: outcome.splits option.splits if_splits)
    then show ?thesis
    proof cases
      case 1
      then have "st' = st[Suc (Suc (Suc (Suc (Suc (Suc (Suc (Suc 0))))))) := st ! 8]"
        by (simp add: eval_nat_numeral)
      then show ?thesis by blast
    next
      case 2
      then show ?thesis by (auto simp: eval_nat_numeral)
    qed
  qed
  then show ?thesis unfolding writes_field_def by blast
qed

lemma class_packs_at:
  "class_packs packs0 dex ''byte'' = Some (on_field unpackByteArray)"
  "class_packs packs0 dex ''ushort'' = Some (on_field unpackUshort)"
  "class_packs packs0 dex ''uint'' = Some (on_field unpackUint)"
  "class_packs packs0 dex ''uleb128'' = Some (on_field unpackUleb128)"
  "class_packs packs0 dex ''staticfields'' = Some (staticfields packs0 dex)"
  "class_packs packs0 dex ''instancefields'' = Some (instancefields packs0 dex)"
  "class_packs packs0 dex ''directmethods'' = Some (directmethods packs0 dex)"
  "class_packs packs0 dex ''virtualmethods'' = Some (virtualmethods packs0 dex)"
  "class_packs packs0 dex ''classdata''
     = Some (classdata (register_lists packs0 dex packs0) (b dex))"
  "class_packs packs0 dex ''staticvalues'' = Some (staticvalues packs0 (b dex) dex)"
  by (simp_all add: class_packs_def register_lists_def RegisterPack_def packs0_def)

lemmas codec_writes_field =
  on_field_writes_field staticfields_writes_field instancefields_writes_field
  directmethods_writes_field virtualmethods_writes_field classdata_writes_field
  staticvalues_writes_field

lemma class_packs_keep:
  "codecs_keep_to_field (class_packs packs0 dex) Header_tags"
  "codecs_keep_to_field (class_packs packs0 dex) TypeId_tags"
  "codecs_keep_to_field (class_packs packs0 dex) ProtoIdItem_tags"
  "codecs_keep_to_field (class_packs packs0 dex) FieldIdItem_tags"
  "codecs_keep_to_field (class_packs packs0 dex) MethodIdItem_tags"
  "codecs_keep_to_field (class_packs packs0 dex) ClassDefItem_tags"
  "codecs_keep_to_field (class_packs packs0 dex) ClassDataItem_tags"
  "codecs_keep_to_field (class_packs packs0 dex) EncodedField_tags"
  "codecs_keep_to_field (class_packs packs0 dex) EncodedMethod_tags"
  "codecs_keep_to_field (class_packs packs0 dex) EncodedValue_tags"
  by (simp_all add: codecs_keep_to_field_def class_packs_at codec_writes_field
        Header_tags_def TypeId_tags_def ProtoIdItem_tags_def FieldIdItem_tags_def
        MethodIdItem_tags_def ClassDefItem_tags_def ClassDataItem_tags_def
        EncodedField_tags_def EncodedMethod_tags_def EncodedValue_tags_def)

lemma register_lists_at:
  "register_lists packs0 dex packs0 ''uleb128'' = Some (on_field unpackUleb128)"
  "register_lists packs0 dex packs0 ''staticfields'' = Some (staticfields packs0 dex)"
  "register_lists packs0 dex packs0 ''instancefields'' = Some (instancefields packs0 dex)"
  "register_lists packs0 dex packs0 ''directmethods'' = Some (directmethods packs0 dex)"
  "register_lists packs0 dex packs0 ''virtualmethods'' = Some (virtualmethods packs0 dex)"
  by (simp_all add: register_lists_def RegisterPack_def packs0_def)

lemma register_lists_keep:
  "codecs_keep_to_field (register_lists packs0 dex packs0) ClassDataItem_tags"
  by (simp add: codecs_keep_to_field_def register_lists_at codec_writes_field
        ClassDataItem_tags_def)

lemma packs0_keep: "codecs_keep_to_field packs0 tags"
proof -
  have "\<forall>p\<in>ran packs0. writes_only_val p"
  proof
    fix p assume "p \<in> ran packs0"
    then obtain t where "packs0 t = Some p" by (auto simp: ran_def)
    then have "p = on_field unpackByteArray \<or> p = on_field unpackUshort
        \<or> p = on_field unpackUint \<or> p = on_field unpackUleb128"
      unfolding packs0_def RegisterPack_def by (simp split: if_splits)
    then show "writes_only_val p" using on_field_writes_only_val by blast
  qed
  then show ?thesis unfolding codecs_keep_to_field_def by (rule writes_only_val_keep)
qed

text \<open>
  C10. \<open>Unpack\<close> leaves every field whose tag is \<open>-\<close> or not registered as it
  was, and the struct keeps its number of fields, whenever the codec of each tag of
  the struct changes only the field at the position of the tag. That is so for every
  struct under the built-in codecs, and for each struct of dex.go under the registry
  that holds the six closures of \<open>Parse\<close> as well. So the \<open>dex\<close> pointer of a
  \<open>ClassDefItem\<close>, the \<open>dex\<close> pointer and the resolved \<open>Field\<close> or \<open>Method\<close>
  of an \<open>EncodedField\<close> or \<open>EncodedMethod\<close>, and all of an \<open>EncodedValue\<close> are
  as before the call.
\<close>

theorem Unpack_keeps_unregistered_fields:
  "(codecs_keep_to_field packs tags \<and> Unpack packs buf tags st = Returned (st', n, err)
      \<and> (tags ! j = ''-'' \<or> packs (tags ! j) = None)
     \<longrightarrow> length st' = length st \<and> st' ! j = st ! j)
   \<and> ((\<forall>p\<in>ran packs. writes_only_val p) \<longrightarrow> codecs_keep_to_field packs tags)
   \<and> codecs_keep_to_field packs0 tags
   \<and> codecs_keep_to_field (register_lists packs0 dex packs0) ClassDataItem_tags
   \<and> codecs_keep_to_field (class_packs packs0 dex) Header_tags
   \<and> codecs_keep_to_field (class_packs packs0 dex) TypeId_tags
   \<and> codecs_keep_to_field (class_packs packs0 dex) ProtoIdItem_tags
   \<and> codecs_keep_to_field (class_packs packs0 dex) FieldIdItem_tags
   \<and> codecs_keep_to_field (class_packs packs0 dex) MethodIdItem_tags
   \<and> codecs_keep_to_field (class_packs packs0 dex) ClassDefItem_tags
   \<and> codecs_keep_to_field (class_packs packs0 dex) ClassDataItem_tags
   \<and> codecs_keep_to_field (class_packs packs0 dex) EncodedField_tags
   \<and> codecs_keep_to_field (class_packs packs0 dex) EncodedMethod_tags
   \<and> codecs_keep_to_field (class_packs packs0 dex) EncodedValue_tags
   \<and> (Unpack (class_packs packs0 dex) buf ClassDefItem_tags st = Returned (st', n, err)
     \<longrightarrow> length st' = length st \<and> st' ! 0 = st ! 0)
   \<and> (Unpack (class_packs packs0 dex) buf EncodedField_tags st = Returned (st', n, err)
     \<longrightarrow> length st' = length st \<and> st' ! 0 = st ! 0 \<and> st' ! 1 = st ! 1)
   \<and> (Unpack (class_packs packs0 dex) buf EncodedMethod_tags st = Returned (st', n, err)
     \<longrightarrow> length st' = length st \<and> st' ! 0 = st ! 0 \<and> st' ! 1 = st ! 1)
   \<and> (Unpack (class_packs packs0 dex) buf EncodedValue_tags st = Returned (st', n, err)
     \<longrightarrow> st' = st)"
proof -
  have a: "length st' = length st \<and> st' ! j = st ! j"
    if "codecs_keep_to_field packs tags" "Unpack packs buf tags st = Returned (st', n, err)"
       "tags ! j = ''-'' \<or> packs (tags ! j) = None"
    using Unpack_frame[OF that(1,2)] that(3) by blast
  have b: "codecs_keep_to_field packs tags" if "\<forall>p\<in>ran packs. writes_only_val p"
    unfolding codecs_keep_to_field_def using that by (rule writes_only_val_keep)
  have c: "length st' = length st \<and> st' ! 0 = st ! 0"
    if "Unpack (class_packs packs0 dex) buf ClassDefItem_tags st = Returned (st', n, err)"
    using Unpack_frame[OF class_packs_keep(6) that] by (simp add: ClassDefItem_tags_def)
  have d: "length st' = length st \<and> st' ! 0 = st ! 0 \<and> st' ! 1 = st ! 1"
    if "Unpack (class_packs packs0 dex) buf EncodedField_tags st = Returned (st', n, err)"
    using Unpack_frame[OF class_packs_keep(8) that] by (simp add: EncodedField_tags_def)
  have e: "length st' = length st \<and> st' ! 0 = st ! 0 \<and> st' ! 1 = st ! 1"
    if "Unpack (class_packs packs0 dex) buf EncodedMethod_tags st = Returned (st', n, err)"
    using Unpack_frame[OF class_packs_keep(9) that] by (simp add: EncodedMethod_tags_def)
  have f: "st' = st"
    if "Unpack (class_packs packs0 dex) buf EncodedValue_tags st = Returned (st', n, err)"
    using that by (simp add: Unpack_def EncodedValue_tags_def)
  from a b c d e f packs0_keep register_lists_keep class_packs_keep show ?thesis
    by blast
qed

theorem Unpack_keeps_unregistered_fields_witness:
  "codecs_keep_to_field (class_packs packs0 (new_DEX (bytes []))) EncodedField_tags
   \<and> Unpack (class_packs packs0 (new_DEX (bytes []))) (bytes [3, 1]) EncodedField_tags
     (EncodedField_fields (zero_EncodedField\<lparr>Field := \<lparr>FieldIdItem.ClassIdx = 1, TypeIdx = 2, NameIdx = 3\<rparr>\<rparr>))
     = Returned ([DexPtr, FieldIdItemV \<lparr>FieldIdItem.ClassIdx = 1, TypeIdx = 2, NameIdx = 3\<rparr>, U64 3, U32 1],
                 2, None)
   \<and> EncodedField_tags ! 1 = ''-''
   \<and> length [DexPtr, FieldIdItemV \<lparr>FieldIdItem.ClassIdx = 1, TypeIdx = 2, NameIdx = 3\<rparr>, U64 3, U32 1]
       = length (EncodedField_fields
                  (zero_EncodedField\<lparr>Field := \<lparr>FieldIdItem.ClassIdx = 1, TypeIdx = 2, NameIdx = 3\<rparr>\<rparr>))
   \<and> [DexPtr, FieldIdItemV \<lparr>FieldIdItem.ClassIdx = 1, TypeIdx = 2, NameIdx = 3\<rparr>, U64 3, U32 1] ! 1
       = EncodedField_fields
           (zero_EncodedField\<lparr>Field := \<lparr>FieldIdItem.ClassIdx = 1, TypeIdx = 2, NameIdx = 3\<rparr>\<rparr>) ! 1"
proof -
  let ?P = "class_packs packs0 (new_DEX (bytes []))"
  let ?st = "EncodedField_fields
     (zero_EncodedField\<lparr>Field := \<lparr>FieldIdItem.ClassIdx = 1, TypeIdx = 2, NameIdx = 3\<rparr>\<rparr>)"
  let ?st' = "[DexPtr, FieldIdItemV \<lparr>FieldIdItem.ClassIdx = 1, TypeIdx = 2, NameIdx = 3\<rparr>, U64 3, U32 1]"
  note T = Unpack_keeps_unregistered_fields
             [where packs="?P" and dex="new_DEX (bytes [])" and tags=EncodedField_tags
                and buf="bytes [3, 1]" and st="?st" and st'="?st'" and n=2 and err=None and j=1]
  have k: "codecs_keep_to_field ?P EncodedField_tags"
    using T by blast
  have e: "Unpack ?P (bytes [3, 1]) EncodedField_tags ?st = Returned (?st', 2, None)"
    by code_simp
  have t: "EncodedField_tags ! 1 = ''-''"
    by (simp add: EncodedField_tags_def)
  have "length ?st' = length ?st \<and> ?st' ! 1 = ?st ! 1"
    using T k e t by blast
  with k e t show ?thesis by simp
qed

section \<open>Properties of Parse\<close>

text \<open>
  \<open>Unpack\<close> consults the registry at the tags of its target and nowhere else, so
  two registries that agree there give the same result.
\<close>

lemma Unpack_registry_cong:
  "\<forall>t\<in>set tags. packs t = packs' t \<Longrightarrow>
   Unpack_fields packs buf tags st i offset = Unpack_fields packs' buf tags st i offset"
  by (induction tags arbitrary: st i offset) (auto split: option.splits outcome.splits)

lemma Unpack_no_error:
  assumes "Unpack packs buf tags st = Returned (st', n, err)"
    and "\<forall>t\<in>set tags. t = ''-'' \<or> packs t \<noteq> None"
  shows "err = None"
  using Unpack_fields_error[OF assms(1)[unfolded Unpack_def]] assms(2) by auto

lemma packs0_dom:
  "packs0 ''uint'' \<noteq> None" "packs0 ''ushort'' \<noteq> None" "packs0 ''byte'' \<noteq> None"
  "packs0 ''uleb128'' \<noteq> None"
  by (simp_all add: packs0_def RegisterPack_def)

lemma Unpack_packs0_no_error:
  assumes "Unpack packs0 buf tags st = Returned (st', n, err)"
    and "set tags \<subseteq> {''-'', ''uint'', ''ushort'', ''byte'', ''uleb128''}"
  shows "err = None"
proof -
  have "\<forall>t\<in>set tags. t = ''-'' \<or> packs0 t \<noteq> None"
    using assms(2) packs0_dom by auto
  with assms(1) show ?thesis by (rule Unpack_no_error)
qed

lemma readHeader_no_error:
  "readHeader packs0 d = Returned (d', err) \<Longrightarrow> err = None"
proof -
  assume "readHeader packs0 d = Returned (d', err)"
  then obtain st n where
    "Unpack packs0 (b d) Header_tags (Header_fields (header d)) = Returned (st, n, err)"
    by (auto simp: readHeader_def split: outcome.splits)
  then show ?thesis
    by (rule Unpack_packs0_no_error) (simp add: Header_tags_def)
qed

lemma readStrings_loop_no_error:
  "readStrings_loop d data i = Returned (d', err) \<Longrightarrow> err = None"
proof (induction "unat (StringIdsSize (header d)) - i" arbitrary: d i)
  case 0
  then show ?case by (simp add: readStrings_loop.simps[of d data i])
next
  case (Suc n)
  then have lt: "i < unat (StringIdsSize (header d))" by simp
  with Suc.prems obtain s where
    r: "readStrings_loop (d\<lparr>Strings := (Strings d)[i := s]\<rparr>) data (Suc i) = Returned (d', err)"
    by (auto simp: readStrings_loop.simps[of d data i] Let_def split: option.splits outcome.splits)
  have "n = unat (StringIdsSize (header (d\<lparr>Strings := (Strings d)[i := s]\<rparr>))) - Suc i"
    using Suc.hyps(2) by simp
  from Suc.hyps(1)[OF this r] show ?case .
qed

lemma readStrings_no_error:
  "readStrings d = Returned (d', err) \<Longrightarrow> err = None"
  by (auto simp: readStrings_def Let_def split: option.splits dest: readStrings_loop_no_error)

lemma readTypes_loop_no_error:
  "readTypes_loop packs0 d i = Returned (d', err) \<Longrightarrow> err = None"
proof (induction "unat (TypeIdsSize (header d)) - i" arbitrary: d i)
  case 0
  then show ?case by (simp add: readTypes_loop.simps[of packs0 d i])
next
  case (Suc n)
  then have lt: "i < unat (TypeIdsSize (header d))" by simp
  with Suc.prems obtain data st m e where
    u: "Unpack packs0 data TypeId_tags (TypeId_fields zero_TypeId) = Returned (st, m, e)" and
    r: "(if e \<noteq> None then Returned (d, e)
         else readTypes_loop packs0 (d\<lparr>Types := (Types d)[i := TypeId_of st]\<rparr>) (Suc i)) = Returned (d', err)"
    by (auto simp: readTypes_loop.simps[of packs0 d i] Let_def split: option.splits outcome.splits)
  have e: "e = None"
    using Unpack_packs0_no_error[OF u] by (simp add: TypeId_tags_def)
  with r have r': "readTypes_loop packs0 (d\<lparr>Types := (Types d)[i := TypeId_of st]\<rparr>) (Suc i) = Returned (d', err)"
    by simp
  have "n = unat (TypeIdsSize (header (d\<lparr>Types := (Types d)[i := TypeId_of st]\<rparr>))) - Suc i"
    using Suc.hyps(2) by simp
  from Suc.hyps(1)[OF this r'] show ?case .
qed

lemma readTypes_no_error:
  "readTypes packs0 d = Returned (d', err) \<Longrightarrow> err = None"
  unfolding readTypes_def by (rule readTypes_loop_no_error)

lemma readPrototypes_loop_no_error:
  "readPrototypes_loop packs0 d i = Returned (d', err) \<Longrightarrow> err = None"
proof (induction "unat (ProtosSize (header d)) - i" arbitrary: d i)
  case 0
  then show ?case by (simp add: readPrototypes_loop.simps[of packs0 d i])
next
  case (Suc n)
  then have lt: "i < unat (ProtosSize (header d))" by simp
  with Suc.prems obtain data st m e where
    u: "Unpack packs0 data ProtoIdItem_tags (ProtoIdItem_fields zero_ProtoIdItem) = Returned (st, m, e)" and
    r: "(if e \<noteq> None then Returned (d, e)
         else readPrototypes_loop packs0 (d\<lparr>Prototypes := (Prototypes d)[i := ProtoIdItem_of st]\<rparr>) (Suc i)) = Returned (d', err)"
    by (auto simp: readPrototypes_loop.simps[of packs0 d i] Let_def split: option.splits outcome.splits)
  have e: "e = None"
    using Unpack_packs0_no_error[OF u] by (simp add: ProtoIdItem_tags_def)
  with r have r': "readPrototypes_loop packs0 (d\<lparr>Prototypes := (Prototypes d)[i := ProtoIdItem_of st]\<rparr>) (Suc i) = Returned (d', err)"
    by simp
  have "n = unat (ProtosSize (header (d\<lparr>Prototypes := (Prototypes d)[i := ProtoIdItem_of st]\<rparr>))) - Suc i"
    using Suc.hyps(2) by simp
  from Suc.hyps(1)[OF this r'] show ?case .
qed

lemma readPrototypes_no_error:
  "readPrototypes packs0 d = Returned (d', err) \<Longrightarrow> err = None"
  unfolding readPrototypes_def by (rule readPrototypes_loop_no_error)

lemma readFields_loop_no_error:
  "readFields_loop packs0 d i = Returned (d', err) \<Longrightarrow> err = None"
proof (induction "unat (FieldsSize (header d)) - i" arbitrary: d i)
  case 0
  then show ?case by (simp add: readFields_loop.simps[of packs0 d i])
next
  case (Suc n)
  then have lt: "i < unat (FieldsSize (header d))" by simp
  with Suc.prems obtain data st m e where
    u: "Unpack packs0 data FieldIdItem_tags (FieldIdItem_fields zero_FieldIdItem) = Returned (st, m, e)" and
    r: "(if e \<noteq> None then Returned (d, e)
         else readFields_loop packs0 (d\<lparr>Fields := (Fields d)[i := FieldIdItem_of st]\<rparr>) (Suc i)) = Returned (d', err)"
    by (auto simp: readFields_loop.simps[of packs0 d i] Let_def split: option.splits outcome.splits)
  have e: "e = None"
    using Unpack_packs0_no_error[OF u] by (simp add: FieldIdItem_tags_def)
  with r have r': "readFields_loop packs0 (d\<lparr>Fields := (Fields d)[i := FieldIdItem_of st]\<rparr>) (Suc i) = Returned (d', err)"
    by simp
  have "n = unat (FieldsSize (header (d\<lparr>Fields := (Fields d)[i := FieldIdItem_of st]\<rparr>))) - Suc i"
    using Suc.hyps(2) by simp
  from Suc.hyps(1)[OF this r'] show ?case .
qed

lemma readFields_no_error:
  "readFields packs0 d = Returned (d', err) \<Longrightarrow> err = None"
  unfolding readFields_def by (rule readFields_loop_no_error)

lemma readMethods_loop_no_error:
  "readMethods_loop packs0 d i = Returned (d', err) \<Longrightarrow> err = None"
proof (induction "unat (MethodIdsSize (header d)) - i" arbitrary: d i)
  case 0
  then show ?case by (simp add: readMethods_loop.simps[of packs0 d i])
next
  case (Suc n)
  then have lt: "i < unat (MethodIdsSize (header d))" by simp
  with Suc.prems obtain data st m e where
    u: "Unpack packs0 data MethodIdItem_tags (MethodIdItem_fields zero_MethodIdItem) = Returned (st, m, e)" and
    r: "(if e \<noteq> None then Returned (d, e)
         else readMethods_loop packs0 (d\<lparr>Methods := (Methods d)[i := MethodIdItem_of st]\<rparr>) (Suc i)) = Returned (d', err)"
    by (auto simp: readMethods_loop.simps[of packs0 d i] Let_def split: option.splits outcome.splits)
  have e: "e = None"
    using Unpack_packs0_no_error[OF u] by (simp add: MethodIdItem_tags_def)
  with r have r': "readMethods_loop packs0 (d\<lparr>Methods := (Methods d)[i := MethodIdItem_of st]\<rparr>) (Suc i) = Returned (d', err)"
    by simp
  have "n = unat (MethodIdsSize (header (d\<lparr>Methods := (Methods d)[i := MethodIdItem_of st]\<rparr>))) - Suc i"
    using Suc.hyps(2) by simp
  from Suc.hyps(1)[OF this r'] show ?case .
qed

lemma readMethods_no_error:
  "readMethods packs0 d = Returned (d', err) \<Longrightarrow> err = None"
  unfolding readMethods_def by (rule readMethods_loop_no_error)

lemma Parse_no_error:
  "Parse packs0 dex = Returned (dex', err) \<Longrightarrow> err = None"
  unfolding Parse_def or_return_def
  by (auto split: outcome.splits if_splits prod.splits
           dest: readHeader_no_error readStrings_no_error readTypes_no_error
                 readPrototypes_no_error readFields_no_error readMethods_no_error)

text \<open>
  C1, as stated, fails. An image of 112 zero bytes does not start with the magic
  bytes, and \<open>Parse\<close> returns a nil error and a header whose magic is eight zero
  bytes. An image with the magic bytes and the bytes \<open>12 34 56 78\<close> at offset 40 has
  the endian tag 0x78563412, and \<open>Parse\<close> returns a nil error and a header with that
  tag.
\<close>

theorem Parse_accepts_bad_magic_and_reverse_endian:
  "Parse packs0 (new_DEX (bytes (replicate 112 0)))
     = Returned ((new_DEX (bytes (replicate 112 0)))\<lparr>header := zero_Header\<rparr>, None)
   \<and> Parse packs0
        (new_DEX (bytes ([0x64, 0x65, 0x78, 0x0A, 0x30, 0x33, 0x35, 0x00] @ replicate 32 0
                         @ [0x12, 0x34, 0x56, 0x78] @ replicate 68 0)))
     = Returned
        ((new_DEX (bytes ([0x64, 0x65, 0x78, 0x0A, 0x30, 0x33, 0x35, 0x00] @ replicate 32 0
                          @ [0x12, 0x34, 0x56, 0x78] @ replicate 68 0)))
           \<lparr>header := zero_Header\<lparr>Magic := [0x64, 0x65, 0x78, 0x0A, 0x30, 0x33, 0x35, 0x00],
                                      EndianTag := 0x78563412\<rparr>\<rparr>,
         None)"
  by code_simp

lemma Parse_any_magic_and_endian_tag:
  "Parse packs0
     (new_DEX (bytes ([m0, m1, m2, m3, m4, m5, m6, m7] @ replicate 32 0
                      @ [t0, t1, t2, t3] @ replicate 68 0)))
   = Returned
      ((new_DEX (bytes ([m0, m1, m2, m3, m4, m5, m6, m7] @ replicate 32 0
                        @ [t0, t1, t2, t3] @ replicate 68 0)))
         \<lparr>header := zero_Header
            \<lparr>Magic := [m0, m1, m2, m3, m4, m5, m6, m7],
             EndianTag := ucast t0 OR push_bit 8 (ucast t1) OR push_bit 16 (ucast t2)
                          OR push_bit 24 (ucast t3)\<rparr>\<rparr>,
       None)"
  by (simp add: Parse_def or_return_def readHeader_def Unpack_def Header_tags_def
        Header_fields_def Header_of_def zero_Header_def new_DEX_def packs0_def RegisterPack_def
        on_field_def unpackByteArray_def unpackUint_def slice_from_def slice_range_def cap_def
        bytes_def contents_def Uint32_def index_def SetUint.simps the_ByteArray_def the_U32_def
        readStrings_def readStrings_loop.simps readTypes_def readTypes_loop.simps
        readPrototypes_def readPrototypes_loop.simps readFields_def readFields_loop.simps
        readMethods_def readMethods_loop.simps Parse_classes.simps Let_def
        eval_nat_numeral ucast_32_64_32)

text \<open>
  C1, amended. \<open>Parse\<close> rejects no header. Whatever the eight bytes of the magic
  and the four bytes of the endian tag, the image of 112 bytes that has them in place
  and is zero elsewhere is parsed with a nil error, and the header returned holds the
  magic and the tag as they were read. On every image whatsoever \<open>readHeader\<close> and
  \<open>Parse\<close> either panic or return a nil error.
\<close>

theorem Parse_never_returns_an_error:
  "Parse packs0
     (new_DEX (bytes ([m0, m1, m2, m3, m4, m5, m6, m7] @ replicate 32 0
                      @ [t0, t1, t2, t3] @ replicate 68 0)))
   = Returned
      ((new_DEX (bytes ([m0, m1, m2, m3, m4, m5, m6, m7] @ replicate 32 0
                        @ [t0, t1, t2, t3] @ replicate 68 0)))
         \<lparr>header := zero_Header
            \<lparr>Magic := [m0, m1, m2, m3, m4, m5, m6, m7],
             EndianTag := ucast t0 OR push_bit 8 (ucast t1) OR push_bit 16 (ucast t2)
                          OR push_bit 24 (ucast t3)\<rparr>\<rparr>,
       None)
   \<and> (readHeader packs0 dex = Panicked \<or> (\<exists>dex'. readHeader packs0 dex = Returned (dex', None)))
   \<and> (Parse packs0 dex = Panicked \<or> (\<exists>dex'. Parse packs0 dex = Returned (dex', None)))"
proof -
  have h: "readHeader packs0 dex = Panicked \<or> (\<exists>dex'. readHeader packs0 dex = Returned (dex', None))"
  proof (cases "readHeader packs0 dex")
    case Panicked
    then show ?thesis by simp
  next
    case (Returned r)
    obtain dex' err where r: "r = (dex', err)" by (cases r)
    with Returned have "err = None" using readHeader_no_error by simp
    with Returned r show ?thesis by simp
  qed
  have p: "Parse packs0 dex = Panicked \<or> (\<exists>dex'. Parse packs0 dex = Returned (dex', None))"
  proof (cases "Parse packs0 dex")
    case Panicked
    then show ?thesis by simp
  next
    case (Returned r)
    obtain dex' err where r: "r = (dex', err)" by (cases r)
    with Returned have "err = None" using Parse_no_error by simp
    with Returned r show ?thesis by simp
  qed
  from Parse_any_magic_and_endian_tag h p show ?thesis by blast
qed

section \<open>Properties of Open\<close>

text \<open>
  C2, as stated, fails. Parsing an empty file fails: \<open>Parse\<close> panics while it
  unpacks the header, whether the bytes come as an empty literal or as
  \<open>ioutil.ReadAll\<close> returns them for an empty file, with length 0 and capacity 512.
  \<open>Open\<close> then has no result at all, so no error either. And the older copy of
  \<open>Open\<close> does not read the file at the path: with a file at \<open>app.dex\<close> and none at
  \<open>classes.dex\<close>, opening \<open>app.dex\<close> returns the error of opening \<open>classes.dex\<close>.
\<close>

theorem Open_panics_on_empty_file:
  "Open packs0 (\<lambda>p. File (bytes [])) ''classes.dex'' = Panicked
   \<and> Open packs0 (\<lambda>p. File (Slice (replicate 512 0) 0)) ''classes.dex'' = Panicked
   \<and> Open_part_001 (Parse packs0)
        (\<lambda>p. if p = ''app.dex'' then File (bytes (replicate 112 0))
              else OpenError ''open classes.dex: no such file or directory'') ''app.dex''
      = Returned (None, Some ''open classes.dex: no such file or directory'')"
  by code_simp

text \<open>
  C2, amended. \<open>Open\<close> returns the error of opening the file at the path, or of
  reading it, with no \<open>DEX\<close>. When the file was read, \<open>Open\<close> runs \<open>Parse\<close> on
  its bytes and drops what \<open>Parse\<close> returns: it panics when \<open>Parse\<close> panics, and
  otherwise returns the \<open>DEX\<close> that \<open>Parse\<close> filled and a nil error. The older
  copy of \<open>Open\<close> does the same with the file \<open>classes.dex\<close>, whatever the path
  and whatever error its \<open>Parse\<close> returns.
\<close>

theorem Open_returns_io_error_or_parsed_dex:
  "(fs path = OpenError err \<longrightarrow> Open packs0 fs path = Returned (None, Some err))
   \<and> (fs path = ReadError err \<longrightarrow> Open packs0 fs path = Returned (None, Some err))
   \<and> (fs path = File buf \<longrightarrow>
         Parse packs0 (new_DEX buf) = Panicked \<and> Open packs0 fs path = Panicked
         \<or> (\<exists>dex. Parse packs0 (new_DEX buf) = Returned (dex, None)
                \<and> Open packs0 fs path = Returned (Some dex, None)))
   \<and> (Open packs0 fs path = Returned (r, e) \<longrightarrow>
         (case fs path of
            OpenError err \<Rightarrow> r = None \<and> e = Some err
          | ReadError err \<Rightarrow> r = None \<and> e = Some err
          | File buf \<Rightarrow>
              e = None \<and> (\<exists>dex. r = Some dex \<and> Parse packs0 (new_DEX buf) = Returned (dex, None))))
   \<and> (fs ''classes.dex'' = OpenError err \<longrightarrow>
         Open_part_001 parse fs path = Returned (None, Some err))
   \<and> (fs ''classes.dex'' = ReadError err \<longrightarrow>
         Open_part_001 parse fs path = Returned (None, Some err))
   \<and> (fs ''classes.dex'' = File buf \<and> parse (new_DEX buf) = Returned (d, pe) \<longrightarrow>
         Open_part_001 parse fs path = Returned (Some d, None))
   \<and> (fs ''classes.dex'' = File buf \<and> parse (new_DEX buf) = Panicked \<longrightarrow>
         Open_part_001 parse fs path = Panicked)
   \<and> Open_part_001 parse fs path = Open_part_001 parse fs path'"
proof -
  have a: "Parse packs0 (new_DEX buf) = Panicked \<and> Open packs0 fs path = Panicked
         \<or> (\<exists>dex. Parse packs0 (new_DEX buf) = Returned (dex, None)
                \<and> Open packs0 fs path = Returned (Some dex, None))"
    if f: "fs path = File buf"
  proof (cases "Parse packs0 (new_DEX buf)")
    case Panicked
    with f show ?thesis by (simp add: Open_def)
  next
    case (Returned x)
    obtain dex pe where x: "x = (dex, pe)" by (cases x)
    with Returned have "pe = None" using Parse_no_error by simp
    with Returned x f show ?thesis by (simp add: Open_def)
  qed
  have b: "case fs path of
            OpenError err \<Rightarrow> r = None \<and> e = Some err
          | ReadError err \<Rightarrow> r = None \<and> e = Some err
          | File buf \<Rightarrow>
              e = None \<and> (\<exists>dex. r = Some dex \<and> Parse packs0 (new_DEX buf) = Returned (dex, None))"
    if o: "Open packs0 fs path = Returned (r, e)"
  proof (cases "fs path")
    case (OpenError err)
    with o show ?thesis by (simp add: Open_def)
  next
    case (ReadError err)
    with o show ?thesis by (simp add: Open_def)
  next
    case (File buf)
    with o obtain dex err where p: "Parse packs0 (new_DEX buf) = Returned (dex, err)"
      and r: "r = Some dex" "e = None"
      by (auto simp: Open_def split: outcome.splits)
    from Parse_no_error[OF p] p r File show ?thesis by simp
  qed
  have c: "fs path = OpenError err \<longrightarrow> Open packs0 fs path = Returned (None, Some err)"
    "fs path = ReadError err \<longrightarrow> Open packs0 fs path = Returned (None, Some err)"
    by (simp_all add: Open_def)
  have d: "fs ''classes.dex'' = OpenError err \<longrightarrow>
         Open_part_001 parse fs path = Returned (None, Some err)"
    "fs ''classes.dex'' = ReadError err \<longrightarrow>
         Open_part_001 parse fs path = Returned (None, Some err)"
    "fs ''classes.dex'' = File buf \<and> parse (new_DEX buf) = Returned (d, pe) \<longrightarrow>
         Open_part_001 parse fs path = Returned (Some d, None)"
    "fs ''classes.dex'' = File buf \<and> parse (new_DEX buf) = Panicked \<longrightarrow>
         Open_part_001 parse fs path = Panicked"
    "Open_part_001 parse fs path = Open_part_001 parse fs path'"
    by (simp_all add: Open_part_001_def)
  from a b c d show ?thesis by blast
qed

theorem Open_returns_io_error_or_parsed_dex_witness:
  "Open packs0
     (\<lambda>p. if p = ''classes.dex'' then File (bytes (replicate 112 0))
           else if p = ''none.dex'' then OpenError ''open none.dex: no such file or directory''
           else ReadError ''read: is a directory'') ''none.dex''
     = Returned (None, Some ''open none.dex: no such file or directory'')
   \<and> Open packs0
     (\<lambda>p. if p = ''classes.dex'' then File (bytes (replicate 112 0))
           else if p = ''none.dex'' then OpenError ''open none.dex: no such file or directory''
           else ReadError ''read: is a directory'') ''tmp''
     = Returned (None, Some ''read: is a directory'')
   \<and> Parse packs0 (new_DEX (bytes (replicate 112 0)))
     = Returned ((new_DEX (bytes (replicate 112 0)))\<lparr>header := zero_Header\<rparr>, None)
   \<and> Open packs0
     (\<lambda>p. if p = ''classes.dex'' then File (bytes (replicate 112 0))
           else if p = ''none.dex'' then OpenError ''open none.dex: no such file or directory''
           else ReadError ''read: is a directory'') ''classes.dex''
     = Returned (Some ((new_DEX (bytes (replicate 112 0)))\<lparr>header := zero_Header\<rparr>), None)
   \<and> Open_part_001 (Parse packs0)
     (\<lambda>p. if p = ''classes.dex'' then File (bytes (replicate 112 0))
           else if p = ''none.dex'' then OpenError ''open none.dex: no such file or directory''
           else ReadError ''read: is a directory'') ''none.dex''
     = Returned (Some ((new_DEX (bytes (replicate 112 0)))\<lparr>header := zero_Header\<rparr>), None)"
proof -
  let ?fs = "\<lambda>p. if p = ''classes.dex'' then File (bytes (replicate 112 0))
           else if p = ''none.dex'' then OpenError ''open none.dex: no such file or directory''
           else ReadError ''read: is a directory''"
  let ?d = "(new_DEX (bytes (replicate 112 0)))\<lparr>header := zero_Header\<rparr>"
  have f: "?fs ''none.dex'' = OpenError ''open none.dex: no such file or directory''"
    "?fs ''tmp'' = ReadError ''read: is a directory''"
    "?fs ''classes.dex'' = File (bytes (replicate 112 0))"
    by simp_all
  have p: "Parse packs0 (new_DEX (bytes (replicate 112 0))) = Returned (?d, None)"
    by code_simp
  have r1: "Open packs0 ?fs ''none.dex''
              = Returned (None, Some ''open none.dex: no such file or directory'')"
    using Open_returns_io_error_or_parsed_dex
            [where fs="?fs" and path="''none.dex''"
               and err="''open none.dex: no such file or directory''"] f(1)
    by blast
  have r2: "Open packs0 ?fs ''tmp'' = Returned (None, Some ''read: is a directory'')"
    using Open_returns_io_error_or_parsed_dex
            [where fs="?fs" and path="''tmp''" and err="''read: is a directory''"] f(2)
    by blast
  have r3: "Open packs0 ?fs ''classes.dex'' = Returned (Some ?d, None)"
  proof -
    from Open_returns_io_error_or_parsed_dex
            [where fs="?fs" and path="''classes.dex''" and buf="bytes (replicate 112 0)"] f(3)
    have "Parse packs0 (new_DEX (bytes (replicate 112 0))) = Panicked
            \<and> Open packs0 ?fs ''classes.dex'' = Panicked
          \<or> (\<exists>dex. Parse packs0 (new_DEX (bytes (replicate 112 0))) = Returned (dex, None)
                 \<and> Open packs0 ?fs ''classes.dex'' = Returned (Some dex, None))"
      by blast
    with p show ?thesis by auto
  qed
  have r4: "Open_part_001 (Parse packs0) ?fs ''none.dex'' = Returned (Some ?d, None)"
    using Open_returns_io_error_or_parsed_dex
            [where fs="?fs" and path="''none.dex''" and buf="bytes (replicate 112 0)"
               and parse="Parse packs0" and d="?d" and pe=None] f(3) p
    by blast
  from r1 r2 p r3 r4 show ?thesis by simp
qed

section \<open>Properties of the class-data lists\<close>














section \<open>Properties of the disassembler\<close>














end
